theory Spec2Isabelle
  imports Complex_Main
begin

section \<open>Values, errors and library functions used by rc_nn_tools.py\<close>

text \<open>
  Python floats and tensor elements are modelled as exact rationals (\<open>rat\<close>): rounding
  error, infinities and NaN are outside the model. Python integers are \<open>int\<close>.
  An exception is a value \<open>Inl e\<close> of a sum type. Library calls (torch, pandas, numpy,
  matplotlib, os) are modelled only as far as the code below depends on them.
\<close>

datatype error =
    ZeroDivisionError
  | ValueError
  | IndexError
  | KeyError
  | AttributeError
  | UnboundLocalError
  | FileNotFoundError
  | OSError
  | DatasetError

subsection \<open>String formatting\<close>

definition digit_char :: "nat \<Rightarrow> char" where
  "digit_char d = ''0123456789'' ! d"

fun show_nat :: "nat \<Rightarrow> string" where
  "show_nat n = (if n < 10 then [digit_char n] else show_nat (n div 10) @ [digit_char (n mod 10)])"

declare show_nat.simps [simp del]

definition show_int :: "int \<Rightarrow> string" where
  \<comment> \<open>\<open>'%d' % n\<close>\<close>
  "show_int n = (if n < 0 then CHR ''-'' # show_nat (nat (- n)) else show_nat (nat n))"

definition pad_left :: "nat \<Rightarrow> string \<Rightarrow> string" where
  "pad_left w s = replicate (w - length s) CHR '' '' @ s"

definition fmt_4d :: "int \<Rightarrow> string" where
  \<comment> \<open>\<open>'{: 4d}'.format(n)\<close>: a space in place of the plus sign, right-aligned in 4 columns\<close>
  "fmt_4d n = pad_left 4 ((if n < 0 then CHR ''-'' else CHR '' '') # show_nat (nat \<bar>n\<bar>))"

definition round_half_even :: "rat \<Rightarrow> int" where
  "round_half_even x =
     (let f = \<lfloor>x\<rfloor>; d = x - of_int f
      in if d < 1 / 2 then f else if 1 / 2 < d then f + 1 else if even f then f else f + 1)"

definition fmt_2f :: "rat \<Rightarrow> string" where
  \<comment> \<open>\<open>'{: 2.2f}'.format(x)\<close>: a space in place of the plus sign, two decimals\<close>
  "fmt_2f x =
     (let r = nat (round_half_even (\<bar>x\<bar> * 100))
      in pad_left 2 ((if x < 0 then CHR ''-'' else CHR '' '') # show_nat (r div 100) @ ''.''
            @ [digit_char (r mod 100 div 10), digit_char (r mod 10)]))"

subsection \<open>Lists\<close>

definition py_index :: "'a list \<Rightarrow> int \<Rightarrow> error + 'a" where
  \<comment> \<open>\<open>xs[i]\<close>; the positions \<open>-len(xs)\<close> to \<open>-1\<close> count from the end\<close>
  "py_index xs i =
     (if 0 \<le> i \<and> i < int (length xs) then Inr (xs ! nat i)
      else if i < 0 \<and> - int (length xs) \<le> i then Inr (xs ! nat (int (length xs) + i))
      else Inl IndexError)"

fun argmax_scan :: "rat list \<Rightarrow> nat \<Rightarrow> nat \<Rightarrow> rat \<Rightarrow> nat" where
  "argmax_scan [] i best bv = best"
| "argmax_scan (x # xs) i best bv =
     (if bv < x then argmax_scan xs (Suc i) i x else argmax_scan xs (Suc i) best bv)"

definition np_argmax :: "rat list \<Rightarrow> error + nat" where
  \<comment> \<open>\<open>np.argmax(xs)\<close>: the 0-based position of the first maximum; an empty sequence raises\<close>
  "np_argmax xs = (case xs of [] \<Rightarrow> Inl ValueError | x # r \<Rightarrow> Inr (argmax_scan r 1 0 x))"

definition torch_round :: "rat \<Rightarrow> rat" where
  \<comment> \<open>\<open>tensor.round()\<close>, elementwise: to the nearest integer, halves to the even one\<close>
  "torch_round x = of_int (round_half_even x)"

definition mse_loss :: "rat list \<Rightarrow> rat list \<Rightarrow> rat" where
  \<comment> \<open>\<open>nn.MSELoss()(target, output)\<close>: the mean of the squared differences (a batch is
      never empty)\<close>
  "mse_loss t y = sum_list (map2 (\<lambda>a b. (a - b)\<^sup>2) t y) / of_nat (length t)"

text \<open>
  The batches a loader yields from a sequence of items: consecutive groups of \<open>n\<close>, the
  last one shorter when the length is not a multiple of \<open>n\<close> (\<open>drop_last\<close> is off).
\<close>

fun chunks :: "nat \<Rightarrow> 'a list \<Rightarrow> 'a list list" where
  "chunks n [] = []"
| "chunks n (x # xs) =
     (if n = 0 then [] else take n (x # xs) # chunks n (drop n (x # xs)))"

definition path_join :: "string \<Rightarrow> string \<Rightarrow> string" where
  \<comment> \<open>\<open>os.path.join(a, b)\<close>\<close>
  "path_join a b =
     (if b \<noteq> [] \<and> hd b = CHR ''/'' then b
      else if a = [] \<or> last a = CHR ''/'' then a @ b
      else a @ ''/'' @ b)"

definition true_div :: "rat \<Rightarrow> rat \<Rightarrow> error + rat" where
  \<comment> \<open>\<open>num / den\<close> on floats\<close>
  "true_div num den = (if den \<noteq> 0 then Inr (num / den) else Inl ZeroDivisionError)"

section \<open>Process state and external collaborators\<close>

text \<open>
  The file system maps a path to what is stored there. A checkpoint holds the model's
  parameter state, a figure its title and the plotted values (over the epochs 1, 2, ...).
\<close>

datatype 'w entry = Dir | Text string | Csv "string list" | Weights 'w | Figure string "rat list"

text \<open>Lines printed on the console; the elapsed wall time of a progress line is left out.\<close>

datatype event =
    TrainProgress int int rat rat
  | TestProgress int rat
  | TestTotal rat
  | Line string

record 'w world =
  fs :: "string \<Rightarrow> 'w entry option"
  out :: "event list"
  rng :: nat

text \<open>
  Modelled from the spec: the modules \<open>racecarNet\<close> (ServoNet, MotorNet) and
  \<open>rc_nn_utility\<close> (Datagen) are not part of the sources. Following the spec's
  TrainableModel and BatchSource they are taken as parameters, together with the torch
  operations that act on them: building a network draws its initial parameters from the
  random generator, the forward pass is a function of the parameters and one image, the
  optimizer step (\<open>zero_grad\<close>, \<open>backward\<close>, \<open>step\<close>) updates the optimizer state and the
  parameters, a dataset item is an image with its servo and motor labels (or fails to
  load), and the shuffling sampler draws an order of the dataset from the generator.
\<close>

record ('w, 'o, 'img) collab =
  seed_state :: "int \<Rightarrow> nat"
  servo_net :: "int list \<Rightarrow> nat \<Rightarrow> 'w \<times> nat"
  motor_net :: "int list \<Rightarrow> nat \<Rightarrow> 'w \<times> nat"
  forward :: "'w \<Rightarrow> 'img \<Rightarrow> rat"
  adam :: "'w \<Rightarrow> 'o"
  backward_step :: "'o \<Rightarrow> 'w \<Rightarrow> 'img list \<Rightarrow> rat list \<Rightarrow> 'o \<times> 'w"
  getitem :: "string \<Rightarrow> ('img \<times> rat \<times> rat) option"
  randperm :: "nat \<Rightarrow> string list \<Rightarrow> string list \<times> nat"

text \<open>One entry \<open>settings[type][mode]\<close> of the settings document.\<close>

record content =
  c_shape :: "int list"
  c_batch :: int
  c_cuda :: bool
  c_epoch :: "int option"
  c_model :: "string option"

text \<open>The attributes of an \<open>NNTools\<close> object; an attribute that was never set is \<open>None\<close>.\<close>

record 'w nntools =
  stype :: string
  shape :: "int list"
  batch_size :: int
  cuda :: bool
  epochs :: "int option"
  model_file :: "string option"
  model :: "'w option"
  on_gpu :: bool
  logf :: "string option"

definition ODIR :: string where
  "ODIR = ''output/''"

definition SEED :: int where
  "SEED = 717"

section \<open>NNTools\<close>

definition mkdir_missing :: "string \<Rightarrow> (string \<Rightarrow> 'w entry option) \<Rightarrow> (string \<Rightarrow> 'w entry option)" where
  "mkdir_missing p f = (if f p = None then f(p \<mapsto> Dir) else f)"

definition set_output :: "'w world \<Rightarrow> (error + string) \<times> 'w world" where
  "set_output w =
     (let f1 = mkdir_missing ODIR (fs w);
          f2 = mkdir_missing (path_join ODIR ''curves'') f1;
          f3 = mkdir_missing (path_join ODIR ''models'') f2;
          lg = path_join ODIR ''result.csv''
      in if f3 lg \<noteq> None then
           (if f3 lg = Some Dir then (Inl OSError, w\<lparr>fs := f3\<rparr>)
            else (Inr lg, w\<lparr>fs := (f3(lg := None))(lg \<mapsto> Text [])\<rparr>))
         else (Inr lg, w\<lparr>fs := f3(lg \<mapsto> Text [])\<rparr>))"

definition load_model :: "'w nntools \<Rightarrow> 'w world \<Rightarrow> string \<Rightarrow> error + 'w nntools" where
  "load_model s w mfile =
     (case model s of
        None \<Rightarrow> Inl AttributeError
      | Some _ \<Rightarrow>
          (case fs w mfile of
             Some (Weights m) \<Rightarrow> Inr (s\<lparr>model := Some m\<rparr>)
           | _ \<Rightarrow> Inl FileNotFoundError))"

definition save_model :: "'w nntools \<Rightarrow> 'w world \<Rightarrow> string \<Rightarrow> (error + unit) \<times> 'w world" where
  "save_model s w mfile =
     (if stype s = ''servo'' then
        (let w1 = w\<lparr>out := out w @ [Line ''Saving servo Model '']\<rparr>
         in case model s of
              None \<Rightarrow> (Inl AttributeError, w1)
            | Some m \<Rightarrow> (Inr (), w1\<lparr>fs := (fs w1)(mfile \<mapsto> Weights m)\<rparr>))
      else if stype s = ''motor'' then
        (let w1 = w\<lparr>out := out w @ [Line ''Saving motor Model '']\<rparr>
         in case model s of
              None \<Rightarrow> (Inl AttributeError, w1)
            | Some m \<Rightarrow> (Inr (), w1\<lparr>fs := (fs w1)(mfile \<mapsto> Weights m)\<rparr>))
      else (Inr (), w))"

definition build_model ::
  "('w, 'o, 'img) collab \<Rightarrow> string \<Rightarrow> int list \<Rightarrow> 'w world \<Rightarrow> 'w option \<times> 'w world" where
  \<comment> \<open>\<open>torch.manual_seed(SEED)\<close>, then the network of the session's type\<close>
  "build_model E ty sh w =
     (let r = seed_state E SEED
      in if ty = ''servo'' then (case servo_net E sh r of (m, r') \<Rightarrow> (Some m, w\<lparr>rng := r'\<rparr>))
         else if ty = ''motor'' then (case motor_net E sh r of (m, r') \<Rightarrow> (Some m, w\<lparr>rng := r'\<rparr>))
         else (None, w\<lparr>rng := r\<rparr>))"

definition read_settings ::
  "(string \<Rightarrow> (string \<Rightarrow> content option) option) \<Rightarrow> string list \<Rightarrow> error + string \<times> string \<times> content" where
  \<comment> \<open>\<open>types[0]\<close> and \<open>json.load(fp)[types[0]][types[1]]\<close>\<close>
  "read_settings settings types =
     (case py_index types 0 of
        Inl e \<Rightarrow> Inl e
      | Inr t0 \<Rightarrow>
          (case settings t0 of
             None \<Rightarrow> Inl KeyError
           | Some by_mode \<Rightarrow>
               (case py_index types 1 of
                  Inl e \<Rightarrow> Inl e
                | Inr t1 \<Rightarrow>
                    (case by_mode t1 of
                       None \<Rightarrow> Inl KeyError
                     | Some c \<Rightarrow> Inr (t0, t1, c)))))"

definition NNTools_init ::
  "('w, 'o, 'img) collab \<Rightarrow> (string \<Rightarrow> (string \<Rightarrow> content option) option) \<Rightarrow> string list
     \<Rightarrow> 'w world \<Rightarrow> (error + 'w nntools) \<times> 'w world" where
  "NNTools_init E settings types w =
     (case read_settings settings types of
        Inl e \<Rightarrow> (Inl e, w)
      | Inr (t0, t1, c) \<Rightarrow>
          if t1 = ''train'' \<and> c_epoch c = None then (Inl KeyError, w)
          else if t1 \<noteq> ''train'' \<and> t1 = ''test'' \<and> c_model c = None then (Inl KeyError, w)
          else
            (case build_model E t0 (c_shape c) w of
               (mo, w1) \<Rightarrow>
                 (let s = \<lparr>stype = t0, shape = c_shape c, batch_size = c_batch c, cuda = c_cuda c,
                           epochs = (if t1 = ''train'' then c_epoch c else None),
                           model_file = (if t1 \<noteq> ''train'' \<and> t1 = ''test'' then c_model c else None),
                           model = mo, on_gpu = False, logf = None\<rparr>
                  in if t1 = ''train'' then
                       (case set_output w1 of
                          (Inl e, w2) \<Rightarrow> (Inl e, w2)
                        | (Inr lg, w2) \<Rightarrow> (Inr (s\<lparr>logf := Some lg\<rparr>), w2))
                     else
                       (case model_file s of
                          None \<Rightarrow> (Inl AttributeError, w1)
                        | Some mf \<Rightarrow>
                            (case load_model s w1 mf of
                               Inl e \<Rightarrow> (Inl e, w1)
                             | Inr s' \<Rightarrow> (Inr s', w1))))))"

subsection \<open>Datasets and batches\<close>

definition pd_read_csv :: "'w world \<Rightarrow> string \<Rightarrow> error + string list" where
  \<comment> \<open>\<open>pd.read_csv(path)["image"].values.tolist()\<close>\<close>
  "pd_read_csv w path = (case fs w path of Some (Csv col) \<Rightarrow> Inr col | _ \<Rightarrow> Inl FileNotFoundError)"

definition DataLoader :: "string list \<Rightarrow> int \<Rightarrow> bool \<Rightarrow> error + unit" where
  \<comment> \<open>the checks of \<open>DataLoader(dataset, batch_size, shuffle)\<close>: a shuffling sampler refuses
      an empty dataset, the batch sampler a batch size that is not positive\<close>
  "DataLoader ds bs shuffle =
     (if shuffle \<and> ds = [] then Inl ValueError
      else if bs \<le> 0 then Inl ValueError
      else Inr ())"

definition load_batch ::
  "('w, 'o, 'img) collab \<Rightarrow> string list \<Rightarrow> error + 'img list \<times> rat list \<times> rat list" where
  \<comment> \<open>the next \<open>image, servo, motor\<close> of the loader: the items of one chunk, collated\<close>
  "load_batch E c =
     (case those (map (getitem E) c) of
        None \<Rightarrow> Inl DatasetError
      | Some xs \<Rightarrow> Inr (map fst xs, map (fst \<circ> snd) xs, map (snd \<circ> snd) xs))"

definition set_io ::
  "'w nntools \<Rightarrow> 'img list \<times> rat list \<times> rat list \<Rightarrow> error + 'img list \<times> rat list" where
  \<comment> \<open>moving a tensor to the GPU does not change its values: both branches on \<open>self.cuda\<close>
      select the same input and target\<close>
  "set_io s b =
     (case b of (images, servo, motor) \<Rightarrow>
        if stype s = ''servo'' then Inr (images, servo)
        else if stype s = ''motor'' then Inr (images, motor)
        else Inl UnboundLocalError)"

definition count_true :: "bool list \<Rightarrow> nat" where
  \<comment> \<open>\<open>sum(accuracy).item()\<close> of a boolean tensor\<close>
  "count_true bs = length (filter (\<lambda>a. a) bs)"

definition to_device :: "'w nntools \<Rightarrow> 'w nntools" where
  \<comment> \<open>\<open>if (self.cuda): model = self.model.cuda() else: model = self.model\<close>: the module is
      moved in place, its parameter values stay\<close>
  "to_device s = (if cuda s then s\<lparr>on_gpu := True\<rparr> else s)"

subsection \<open>test\<close>

fun test_loop ::
  "('w, 'o, 'img) collab \<Rightarrow> 'w nntools \<Rightarrow> 'w \<Rightarrow> bool \<Rightarrow> string list list
     \<Rightarrow> rat \<times> int \<times> event list \<Rightarrow> (error + rat \<times> int) \<times> event list" where
  "test_loop E s m display [] (total_accuracy, count, ou) = (Inr (total_accuracy, count), ou)"
| "test_loop E s m display (c # cs) (total_accuracy, count, ou) =
     (case load_batch E c of
        Inl e \<Rightarrow> (Inl e, ou)
      | Inr b \<Rightarrow>
          (let count' = count + batch_size s
           in case set_io s b of
                Inl e \<Rightarrow> (Inl e, ou)
              | Inr (input, target) \<Rightarrow>
                  (let output = map (torch_round \<circ> forward E m) input;
                       accuracy = map2 (\<lambda>t y. \<bar>t - y\<bar> \<le> 1) target output;
                       total' = total_accuracy + of_nat (count_true accuracy)
                   in if display \<and> count' mod 100 = 0 then
                        (case true_div (total' * 100) (of_int count') of
                           Inl e \<Rightarrow> (Inl e, ou)
                         | Inr a \<Rightarrow> test_loop E s m display cs (total', count', ou @ [TestProgress count' a]))
                      else test_loop E s m display cs (total', count', ou))))"

definition test ::
  "('w, 'o, 'img) collab \<Rightarrow> 'w nntools \<Rightarrow> 'w world \<Rightarrow> string \<Rightarrow> bool
     \<Rightarrow> (error + rat) \<times> 'w nntools \<times> 'w world" where
  "test E s w testset display =
     (case pd_read_csv w testset of
        Inl e \<Rightarrow> (Inl e, s, w)
      | Inr ts \<Rightarrow>
          (case model s of
             None \<Rightarrow> (Inl AttributeError, s, w)
           | Some m \<Rightarrow>
               (let s1 = to_device s
                in case DataLoader ts (batch_size s1) False of
                     Inl e \<Rightarrow> (Inl e, s1, w)
                   | Inr _ \<Rightarrow>
                       (case test_loop E s1 m display (chunks (nat (batch_size s1)) ts) (0, 0, out w) of
                          (Inl e, ou) \<Rightarrow> (Inl e, s1, w\<lparr>out := ou\<rparr>)
                        | (Inr (total_accuracy, count), ou) \<Rightarrow>
                            (case true_div (total_accuracy * 100) (of_nat (length ts)) of
                               Inl e \<Rightarrow> (Inl e, s1, w\<lparr>out := ou\<rparr>)
                             | Inr a \<Rightarrow>
                                 (Inr a, s1, w\<lparr>out := (if display then ou @ [TestTotal a] else ou)\<rparr>))))))"

subsection \<open>plot_result\<close>

definition plot_curve ::
  "'w nntools \<Rightarrow> 'w world \<Rightarrow> int \<Rightarrow> rat list \<Rightarrow> string \<Rightarrow> (error + unit) \<times> 'w world" where
  \<comment> \<open>one of the two figures: \<open>plt.plot(range(1, epoch+1), ys)\<close> needs as many values as
      epochs, and \<open>fig_path\<close> is bound only for the two known types\<close>
  "plot_curve s w epoch ys name =
     (if int (length ys) \<noteq> max 0 epoch then (Inl ValueError, w)
      else if stype s = ''servo'' then
        (Inr (), w\<lparr>fs := (fs w)(ODIR @ ''/curves/Servo '' @ name @ '' Curve.png''
                                  \<mapsto> Figure ''Servo Data Training'' ys)\<rparr>)
      else if stype s = ''motor'' then
        (Inr (), w\<lparr>fs := (fs w)(ODIR @ ''/curves/Motor '' @ name @ '' Curve.png''
                                  \<mapsto> Figure ''Motor Data Training'' ys)\<rparr>)
      else (Inl UnboundLocalError, w))"

definition log_line :: "string \<Rightarrow> int \<Rightarrow> rat \<Rightarrow> int \<Rightarrow> string" where
  \<comment> \<open>the format string continues on a second source line, whose indentation of 16 spaces
      belongs to it\<close>
  "log_line label epoch acc best =
     fmt_4d epoch @ '','' @ fmt_2f acc @ '','' @ replicate 16 CHR '' '' @ label @ '': epoch ''
       @ fmt_4d epoch @ '' - accuracy: '' @ fmt_2f acc @ '' - best '' @ fmt_4d best @ [CHR 0x0A]"

definition best_epoch :: "rat list \<Rightarrow> error + int" where
  \<comment> \<open>\<open>np.argmax(dev_accuracy)+1\<close>\<close>
  "best_epoch dev_accuracy = (case np_argmax dev_accuracy of Inl e \<Rightarrow> Inl e | Inr i \<Rightarrow> Inr (int i + 1))"

definition log_content :: "'w nntools \<Rightarrow> int \<Rightarrow> rat list \<Rightarrow> error + string" where
  "log_content s epoch dev_accuracy =
     (if stype s = ''servo'' \<or> stype s = ''motor'' then
        (case py_index dev_accuracy (epoch - 1) of
           Inl e \<Rightarrow> Inl e
         | Inr a \<Rightarrow>
             (case best_epoch dev_accuracy of
                Inl e \<Rightarrow> Inl e
              | Inr b \<Rightarrow> Inr (log_line (if stype s = ''motor'' then ''Motor'' else ''Servo'') epoch a b)))
      else Inl UnboundLocalError)"

definition append_text :: "'w world \<Rightarrow> string \<Rightarrow> string \<Rightarrow> (error + unit) \<times> 'w world" where
  \<comment> \<open>\<open>with open(path, 'a') as fp: fp.write(t)\<close>\<close>
  "append_text w path t =
     (case fs w path of
        None \<Rightarrow> (Inr (), w\<lparr>fs := (fs w)(path \<mapsto> Text t)\<rparr>)
      | Some (Text old) \<Rightarrow> (Inr (), w\<lparr>fs := (fs w)(path \<mapsto> Text (old @ t))\<rparr>)
      | Some _ \<Rightarrow> (Inl OSError, w))"

definition plot_result ::
  "'w nntools \<Rightarrow> 'w world \<Rightarrow> int \<Rightarrow> rat list \<Rightarrow> rat list \<Rightarrow> (error + unit) \<times> 'w world" where
  "plot_result s w epoch total_loss dev_accuracy =
     (case plot_curve s w epoch total_loss ''Loss'' of
        (Inl e, w1) \<Rightarrow> (Inl e, w1)
      | (Inr _, w1) \<Rightarrow>
          (case plot_curve s w1 epoch dev_accuracy ''Accuracy'' of
             (Inl e, w2) \<Rightarrow> (Inl e, w2)
           | (Inr _, w2) \<Rightarrow>
               (case log_content s epoch dev_accuracy of
                  Inl e \<Rightarrow> (Inl e, w2)
                | Inr content \<Rightarrow>
                    (case logf s of
                       None \<Rightarrow> (Inl AttributeError, w2)
                     | Some lg \<Rightarrow> append_text w2 lg content))))"

subsection \<open>train\<close>

text \<open>
  The state of a running \<open>train\<close> call: the object, the process state, and the local
  variables. \<open>batch\<close> and \<open>running_loss\<close> are function-level locals that each epoch
  assigns anew before it reads them.
\<close>

record ('w, 'o) frame =
  self :: "'w nntools"
  wld :: "'w world"
  optimizer :: 'o
  total_loss :: "rat list"
  dev_accuracy :: "rat list"
  epoch_loss :: rat
  accuracy :: rat
  batch :: int
  running_loss :: rat

definition train_step ::
  "('w, 'o, 'img) collab \<Rightarrow> int \<Rightarrow> string list \<Rightarrow> ('w, 'o) frame \<Rightarrow> (error + unit) \<times> ('w, 'o) frame" where
  \<comment> \<open>one pass of the batch loop: pulling the batch, then the loop body\<close>
  "train_step E epoch c fr =
     (case load_batch E c of
        Inl e \<Rightarrow> (Inl e, fr)
      | Inr b \<Rightarrow>
          (let fr1 = fr\<lparr>batch := batch fr + batch_size (self fr)\<rparr>
           in case set_io (self fr1) b of
                Inl e \<Rightarrow> (Inl e, fr1)
              | Inr (input, target) \<Rightarrow>
                  (case model (self fr1) of
                     None \<Rightarrow> (Inl AttributeError, fr1)
                   | Some m \<Rightarrow>
                       (let output = map (forward E m) input;
                            loss = mse_loss target output
                        in case backward_step E (optimizer fr1) m input target of
                             (opt', m') \<Rightarrow>
                               (let fr2 = fr1\<lparr>self := (self fr1)\<lparr>model := Some m'\<rparr>,
                                              optimizer := opt',
                                              running_loss := running_loss fr1 + loss\<rparr>
                                in if batch fr2 mod 100 = 0 then
                                     (Inr (),
                                      fr2\<lparr>wld := (wld fr2)\<lparr>out := out (wld fr2) @
                                              [TrainProgress epoch (batch fr2) (running_loss fr2 / 100) (accuracy fr2)]\<rparr>,
                                          epoch_loss := running_loss fr2 / 100,
                                          running_loss := 0\<rparr>)
                                   else (Inr (), fr2))))))"

fun train_batches ::
  "('w, 'o, 'img) collab \<Rightarrow> int \<Rightarrow> string list list \<Rightarrow> ('w, 'o) frame \<Rightarrow> (error + unit) \<times> ('w, 'o) frame" where
  "train_batches E epoch [] fr = (Inr (), fr)"
| "train_batches E epoch (c # cs) fr =
     (case train_step E epoch c fr of
        (Inl e, fr') \<Rightarrow> (Inl e, fr')
      | (Inr _, fr') \<Rightarrow> train_batches E epoch cs fr')"

definition model_path :: "int \<Rightarrow> string" where
  \<comment> \<open>\<open>'models/servo_model_epoch_%d.pth' % epoch\<close>\<close>
  "model_path epoch = ''models/servo_model_epoch_'' @ show_int epoch @ ''.pth''"

definition epoch_end ::
  "('w, 'o, 'img) collab \<Rightarrow> string \<Rightarrow> int \<Rightarrow> ('w, 'o) frame \<Rightarrow> (error + unit) \<times> ('w, 'o) frame" where
  \<comment> \<open>the part of an epoch after its batch loop: validation, checkpoint, curves and log\<close>
  "epoch_end E devset epoch fr =
     (case test E (self fr) (wld fr) devset False of
        (Inl e, s', w') \<Rightarrow> (Inl e, fr\<lparr>self := s', wld := w'\<rparr>)
      | (Inr acc, s', w') \<Rightarrow>
          (let fr3 = fr\<lparr>self := s', wld := w', accuracy := acc,
                        dev_accuracy := dev_accuracy fr @ [acc],
                        total_loss := total_loss fr @ [epoch_loss fr]\<rparr>
           in case save_model (self fr3) (wld fr3) (path_join ODIR (model_path epoch)) of
                (Inl e, w4) \<Rightarrow> (Inl e, fr3\<lparr>wld := w4\<rparr>)
              | (Inr _, w4) \<Rightarrow>
                  (case plot_result (self fr3) w4 epoch (total_loss fr3) (dev_accuracy fr3) of
                     (Inl e, w5) \<Rightarrow> (Inl e, fr3\<lparr>wld := w5\<rparr>)
                   | (Inr _, w5) \<Rightarrow> (Inr (), fr3\<lparr>wld := w5\<rparr>))))"

definition epoch_batches ::
  "('w, 'o, 'img) collab \<Rightarrow> string list \<Rightarrow> ('w, 'o) frame \<Rightarrow> string list list \<times> ('w, 'o) frame" where
  \<comment> \<open>the start of an epoch: the counters are reset and the loader draws a new order\<close>
  "epoch_batches E trainset fr =
     (let fr0 = fr\<lparr>batch := 0, running_loss := 0\<rparr>
      in case randperm E (rng (wld fr0)) trainset of
           (order, r) \<Rightarrow>
             (chunks (nat (batch_size (self fr0))) order, fr0\<lparr>wld := (wld fr0)\<lparr>rng := r\<rparr>\<rparr>))"

definition train_epoch ::
  "('w, 'o, 'img) collab \<Rightarrow> string list \<Rightarrow> string \<Rightarrow> int \<Rightarrow> ('w, 'o) frame
     \<Rightarrow> (error + unit) \<times> ('w, 'o) frame" where
  \<comment> \<open>the body of the epoch loop\<close>
  "train_epoch E trainset devset epoch fr =
     (case epoch_batches E trainset fr of
        (cs, fr1) \<Rightarrow>
          (case train_batches E epoch cs fr1 of
             (Inl e, fr2) \<Rightarrow> (Inl e, fr2)
           | (Inr _, fr2) \<Rightarrow> epoch_end E devset epoch fr2))"

fun train_epochs ::
  "('w, 'o, 'img) collab \<Rightarrow> string list \<Rightarrow> string \<Rightarrow> int list \<Rightarrow> ('w, 'o) frame
     \<Rightarrow> (error + unit) \<times> ('w, 'o) frame" where
  "train_epochs E trainset devset [] fr = (Inr (), fr)"
| "train_epochs E trainset devset (epoch # rest) fr =
     (case train_epoch E trainset devset epoch fr of
        (Inl e, fr') \<Rightarrow> (Inl e, fr')
      | (Inr _, fr') \<Rightarrow> train_epochs E trainset devset rest fr')"

definition finish_message :: "'w nntools \<Rightarrow> 'w world \<Rightarrow> 'w world" where
  "finish_message s w =
     (let w1 = (if stype s = ''servo'' then w\<lparr>out := out w @ [Line ''Servo model training finished!'']\<rparr> else w)
      in if stype s = ''motor'' then w1\<lparr>out := out w1 @ [Line ''Motor model training finished!'']\<rparr> else w1)"

definition train_setup ::
  "('w, 'o, 'img) collab \<Rightarrow> 'w nntools \<Rightarrow> 'w world \<Rightarrow> string
     \<Rightarrow> (error \<times> 'w nntools \<times> 'w world) + (string list \<times> int \<times> ('w, 'o) frame)" where
  \<comment> \<open>\<open>train\<close> up to its epoch loop: the training list, the epoch count, the first frame\<close>
  "train_setup E s w trainset =
     (case pd_read_csv w trainset of
        Inl e \<Rightarrow> Inl (e, s, w)
      | Inr ts \<Rightarrow>
          (case model s of
             None \<Rightarrow> Inl (AttributeError, s, w)
           | Some m \<Rightarrow>
               (let s1 = to_device s
                in case DataLoader ts (batch_size s1) True of
                     Inl e \<Rightarrow> Inl (e, s1, w)
                   | Inr _ \<Rightarrow>
                       (case epochs s1 of
                          None \<Rightarrow> Inl (AttributeError, s1, w)
                        | Some n \<Rightarrow>
                            Inr (ts, n,
                                 \<lparr>self = s1, wld = w, optimizer = adam E m, total_loss = [],
                                  dev_accuracy = [], epoch_loss = 0, accuracy = 0, batch = 0,
                                  running_loss = 0\<rparr>)))))"

text \<open>
  \<open>train_frame\<close> is \<open>train\<close> with the frame at its return made visible: either the
  exception with the object and the process state it leaves behind, or the final frame.
\<close>

definition train_frame ::
  "('w, 'o, 'img) collab \<Rightarrow> 'w nntools \<Rightarrow> 'w world \<Rightarrow> string \<Rightarrow> string
     \<Rightarrow> (error \<times> 'w nntools \<times> 'w world) + ('w, 'o) frame" where
  "train_frame E s w trainset devset =
     (case train_setup E s w trainset of
        Inl x \<Rightarrow> Inl x
      | Inr (ts, n, fr0) \<Rightarrow>
          (case train_epochs E ts devset [1..n] fr0 of
             (Inl e, fr) \<Rightarrow> Inl (e, self fr, wld fr)
           | (Inr _, fr) \<Rightarrow> Inr (fr\<lparr>wld := finish_message (self fr) (wld fr)\<rparr>)))"

definition train ::
  "('w, 'o, 'img) collab \<Rightarrow> 'w nntools \<Rightarrow> 'w world \<Rightarrow> string \<Rightarrow> string
     \<Rightarrow> (error + unit) \<times> 'w nntools \<times> 'w world" where
  "train E s w trainset devset =
     (case train_frame E s w trainset devset of
        Inl (e, s', w') \<Rightarrow> (Inl e, s', w')
      | Inr (fr :: ('w, 'o) frame) \<Rightarrow> (Inr (), self fr, wld fr))"

section \<open>Notions of the specification\<close>

definition within_band :: "('w, 'o, 'img) collab \<Rightarrow> 'w nntools \<Rightarrow> 'w \<Rightarrow> string \<Rightarrow> bool" where
  \<comment> \<open>an example is correct: its label (the session's signal) and its rounded prediction
      differ by at most one\<close>
  "within_band E s m p =
     (case getitem E p of
        None \<Rightarrow> False
      | Some (img, servo, motor) \<Rightarrow>
          \<bar>(if stype s = ''motor'' then motor else servo) - torch_round (forward E m img)\<bar> \<le> 1)"

definition log_path :: string where
  "log_path = path_join ODIR ''result.csv''"

definition log_text :: "'w world \<Rightarrow> string" where
  "log_text w = (case fs w log_path of Some (Text t) \<Rightarrow> t | _ \<Rightarrow> [])"

definition line_count :: "string \<Rightarrow> nat" where
  "line_count t = length (filter (\<lambda>c. c = CHR 0x0A) t)"

definition checkpoints :: "'w world \<Rightarrow> string set" where
  "checkpoints w = {p. \<exists>m. fs w p = Some (Weights m)}"

definition checkpoint_path :: "int \<Rightarrow> string" where
  \<comment> \<open>where \<open>train\<close> saves the model after the given epoch\<close>
  "checkpoint_path epoch = path_join ODIR (model_path epoch)"

fun progress_counts :: "event list \<Rightarrow> int list" where
  "progress_counts [] = []"
| "progress_counts (TrainProgress e b l a # evs) = b # progress_counts evs"
| "progress_counts (_ # evs) = progress_counts evs"

section \<open>Example sessions\<close>

text \<open>
  A small concrete instance: images are numbers and the network predicts the image
  itself, so the five items \<open>a\<close> to \<open>e\<close> have the predictions 3, 4, 2, 9, 1 and the servo
  labels 3, 5, 2, 8, 1; every optimizer step adds one to the single parameter.
\<close>

definition demo_collab :: "(rat, unit, rat) collab" where
  "demo_collab =
     \<lparr>seed_state = nat, servo_net = (\<lambda>sh r. (0, r + 1)), motor_net = (\<lambda>sh r. (1, r + 1)),
      forward = (\<lambda>w x. x), adam = (\<lambda>w. ()), backward_step = (\<lambda>opt w xs ts. ((), w + 1)),
      getitem = (\<lambda>p. if p = ''a'' then Some (3, 3, 0) else if p = ''b'' then Some (4, 5, 0)
                    else if p = ''c'' then Some (2, 2, 0) else if p = ''d'' then Some (9, 8, 0)
                    else if p = ''e'' then Some (1, 1, 0) else if p = ''u'' then Some (1, 0, 0)
                    else None),
      randperm = (\<lambda>r xs. (xs, r + 1))\<rparr>"

text \<open>
  The item \<open>u\<close> has prediction 1 and servo label 0, so its squared error is 1. The
  manifests: five test items, none, three training items, a training list whose third
  item does not load, and 101 copies of \<open>u\<close>.
\<close>

definition demo_world :: "rat world" where
  "demo_world =
     \<lparr>fs = [''test.csv'' \<mapsto> Csv [''a'', ''b'', ''c'', ''d'', ''e''], ''empty.csv'' \<mapsto> Csv [],
            ''train.csv'' \<mapsto> Csv [''a'', ''b'', ''c''],
            ''bad.csv'' \<mapsto> Csv [''a'', ''b'', ''missing''],
            ''big.csv'' \<mapsto> Csv (replicate 101 ''u'')],
      out = [], rng = 0\<rparr>"

definition demo_servo :: "rat nntools" where
  "demo_servo =
     \<lparr>stype = ''servo'', shape = [], batch_size = 2, cuda = True, epochs = Some 2,
      model_file = None, model = Some 0, on_gpu = False, logf = Some ''output/result.csv''\<rparr>"

definition demo_settings :: "string \<Rightarrow> (string \<Rightarrow> content option) option" where
  "demo_settings =
     (\<lambda>t. if t = ''servo'' \<or> t = ''motor'' then
             Some (\<lambda>m. if m = ''train'' then
                          Some \<lparr>c_shape = [3, 66, 200], c_batch = 2, c_cuda = False,
                                c_epoch = Some 2, c_model = None\<rparr>
                        else if m = ''test'' then
                          Some \<lparr>c_shape = [3, 66, 200], c_batch = 2, c_cuda = False,
                                c_epoch = None, c_model = Some ''models/servo_model.pth''\<rparr>
                        else None)
           else None)"

definition demo_frame :: "int \<Rightarrow> (rat, unit) frame" where
  \<comment> \<open>the frame at the start of the epoch loop of a servo session with the given batch size\<close>
  "demo_frame bs =
     \<lparr>self = \<lparr>stype = ''servo'', shape = [], batch_size = bs, cuda = False, epochs = Some 2,
              model_file = None, model = Some 0, on_gpu = False, logf = Some ''output/result.csv''\<rparr>,
      wld = demo_world, optimizer = (), total_loss = [], dev_accuracy = [], epoch_loss = 0,
      accuracy = 0, batch = 0, running_loss = 0\<rparr>"

section \<open>Properties of the library functions\<close>

lemma argmax_scan_inv:
  assumes "best < length pre" "bv = (pre @ xs) ! best"
    and "\<forall>j < length pre. (pre @ xs) ! j \<le> bv"
    and "\<forall>j < best. (pre @ xs) ! j < bv"
  shows "argmax_scan xs (length pre) best bv < length (pre @ xs)
       \<and> (\<forall>j < length (pre @ xs). (pre @ xs) ! j \<le> (pre @ xs) ! argmax_scan xs (length pre) best bv)
       \<and> (\<forall>j < argmax_scan xs (length pre) best bv. (pre @ xs) ! j < (pre @ xs) ! argmax_scan xs (length pre) best bv)"
  using assms
proof (induction xs arbitrary: pre best bv)
  case Nil
  then show ?case by simp
next
  case (Cons x xs)
  have app: "pre @ x # xs = (pre @ [x]) @ xs" by simp
  have nx: "(pre @ x # xs) ! length pre = x" by simp
  show ?case
  proof (cases "bv < x")
    case True
    have a1: "length pre < length (pre @ [x])" by simp
    have a2: "x = ((pre @ [x]) @ xs) ! length pre" by simp
    have a3: "\<forall>j < length (pre @ [x]). ((pre @ [x]) @ xs) ! j \<le> x"
    proof (intro allI impI)
      fix j assume "j < length (pre @ [x])"
      then consider "j < length pre" | "j = length pre" by fastforce
      then show "((pre @ [x]) @ xs) ! j \<le> x"
      proof cases
        case 1
        then have "(pre @ x # xs) ! j \<le> bv" using Cons.prems(3) by blast
        then show ?thesis using True by simp
      next
        case 2
        then show ?thesis by simp
      qed
    qed
    have a4: "\<forall>j < length pre. ((pre @ [x]) @ xs) ! j < x"
    proof (intro allI impI)
      fix j assume "j < length pre"
      then have "(pre @ x # xs) ! j \<le> bv" using Cons.prems(3) by blast
      then show "((pre @ [x]) @ xs) ! j < x" using True by simp
    qed
    from Cons.IH[of "length pre" "pre @ [x]" x, OF a1 a2 a3 a4] True
    show ?thesis by simp
  next
    case False
    have a1: "best < length (pre @ [x])" using Cons.prems(1) by simp
    have a2: "bv = ((pre @ [x]) @ xs) ! best" using Cons.prems(2) by simp
    have a3: "\<forall>j < length (pre @ [x]). ((pre @ [x]) @ xs) ! j \<le> bv"
    proof (intro allI impI)
      fix j assume "j < length (pre @ [x])"
      then consider "j < length pre" | "j = length pre" by fastforce
      then show "((pre @ [x]) @ xs) ! j \<le> bv"
      proof cases
        case 1
        then show ?thesis using Cons.prems(3) by simp
      next
        case 2
        then show ?thesis using False by simp
      qed
    qed
    have a4: "\<forall>j < best. ((pre @ [x]) @ xs) ! j < bv" using Cons.prems(4) by simp
    from Cons.IH[of best "pre @ [x]" bv, OF a1 a2 a3 a4] False
    show ?thesis by simp
  qed
qed

lemma np_argmax_first_max:
  assumes "xs \<noteq> []"
  shows "\<exists>i. np_argmax xs = Inr i \<and> i < length xs \<and> (\<forall>j < length xs. xs ! j \<le> xs ! i)
            \<and> (\<forall>j < i. xs ! j < xs ! i)"
proof -
  from assms obtain x r where xs: "xs = x # r" by (cases xs) auto
  have "argmax_scan r (length [x]) 0 x < length ([x] @ r)
       \<and> (\<forall>j < length ([x] @ r). ([x] @ r) ! j \<le> ([x] @ r) ! argmax_scan r (length [x]) 0 x)
       \<and> (\<forall>j < argmax_scan r (length [x]) 0 x. ([x] @ r) ! j < ([x] @ r) ! argmax_scan r (length [x]) 0 x)"
    by (rule argmax_scan_inv) auto
  then show ?thesis by (simp add: xs np_argmax_def)
qed


lemma digit_char_range: "d < 10 \<Longrightarrow> digit_char d \<in> set ''0123456789''"
  unfolding digit_char_def by (rule nth_mem) simp

lemma digit_char_not_newline: "d < 10 \<Longrightarrow> digit_char d \<noteq> CHR 0x0A"
  using digit_char_range[of d] by auto

lemma digit_char_inj: "a < 10 \<Longrightarrow> b < 10 \<Longrightarrow> digit_char a = digit_char b \<Longrightarrow> a = b"
proof -
  assume a: "a < 10" and b: "b < 10" and e: "digit_char a = digit_char b"
  have d: "distinct ''0123456789''" by simp
  have "(''0123456789'' ! a = ''0123456789'' ! b) = (a = b)"
    by (rule nth_eq_iff_index_eq[OF d]) (use a b in simp_all)
  with e show "a = b" by (simp add: digit_char_def)
qed

lemma show_nat_nonempty: "show_nat n \<noteq> []"
  by (subst show_nat.simps) simp

lemma show_nat_no_newline: "CHR 0x0A \<notin> set (show_nat n)"
proof (induction n rule: show_nat.induct)
  case (1 n)
  show ?case
  proof (cases "n < 10")
    case True
    then show ?thesis by (subst show_nat.simps) (simp add: digit_char_not_newline[THEN not_sym])
  next
    case False
    have "n mod 10 < 10" by simp
    then have "digit_char (n mod 10) \<noteq> CHR 0x0A" by (rule digit_char_not_newline)
    with False 1 show ?thesis by (subst show_nat.simps) (simp add: not_sym)
  qed
qed

lemma show_nat_inj: "show_nat m = show_nat n \<Longrightarrow> m = n"
proof (induction m arbitrary: n rule: show_nat.induct)
  case (1 m)
  show ?case
  proof (cases "m < 10")
    case m: True
    show ?thesis
    proof (cases "n < 10")
      case True
      with m "1.prems" show ?thesis
        by (simp add: show_nat.simps[of m] show_nat.simps[of n] digit_char_inj)
    next
      case False
      with m "1.prems" have "show_nat (n div 10) = []"
        by (simp add: show_nat.simps[of m] show_nat.simps[of n] Cons_eq_append_conv)
      then show ?thesis using show_nat_nonempty by blast
    qed
  next
    case m: False
    show ?thesis
    proof (cases "n < 10")
      case True
      with m "1.prems" have "show_nat (m div 10) = []"
        by (simp add: show_nat.simps[of m] show_nat.simps[of n] append_eq_Cons_conv)
      then show ?thesis using show_nat_nonempty by blast
    next
      case False
      with m "1.prems" have e: "show_nat (m div 10) = show_nat (n div 10)"
        "digit_char (m mod 10) = digit_char (n mod 10)"
        by (simp_all add: show_nat.simps[of m] show_nat.simps[of n])
      from "1.IH"[OF m e(1)] have d: "m div 10 = n div 10" .
      have "m mod 10 = n mod 10" by (rule digit_char_inj[OF _ _ e(2)]) simp_all
      with d show ?thesis by (metis div_mult_mod_eq)
    qed
  qed
qed

lemma checkpoint_path_eq:
  "checkpoint_path k = ''output/models/servo_model_epoch_'' @ show_int k @ ''.pth''"
  by (simp add: checkpoint_path_def path_join_def ODIR_def model_path_def)

lemma checkpoint_path_inj: "0 \<le> j \<Longrightarrow> 0 \<le> k \<Longrightarrow> checkpoint_path j = checkpoint_path k \<Longrightarrow> j = k"
proof -
  assume j: "0 \<le> j" and k: "0 \<le> k" and e: "checkpoint_path j = checkpoint_path k"
  from e have "show_int j = show_int k" by (simp add: checkpoint_path_eq)
  with j k have "show_nat (nat j) = show_nat (nat k)" by (simp add: show_int_def)
  then have "nat j = nat k" by (rule show_nat_inj)
  with j k show "j = k" by simp
qed

lemma log_path_eq: "log_path = ''output/result.csv''"
  by (simp add: log_path_def path_join_def ODIR_def)

lemma checkpoint_not_log: "checkpoint_path k \<noteq> log_path"
  by (simp add: checkpoint_path_eq log_path_eq)

lemma line_count_append [simp]: "line_count (xs @ ys) = line_count xs + line_count ys"
  by (simp add: line_count_def)

lemma line_count_simps [simp]:
  "line_count [] = 0"
  "line_count (c # cs) = (if c = CHR 0x0A then 1 else 0) + line_count cs"
  by (simp_all add: line_count_def)

lemma line_count_none: "CHR 0x0A \<notin> set xs \<Longrightarrow> line_count xs = 0"
  by (induction xs) auto

lemma fmt_4d_no_newline: "line_count (fmt_4d n) = 0"
  by (rule line_count_none) (auto simp: fmt_4d_def pad_left_def show_nat_no_newline)

lemma fmt_2f_no_newline: "line_count (fmt_2f x) = 0"
proof -
  let ?r = "nat (round_half_even (\<bar>x\<bar> * 100))"
  have a: "digit_char (?r mod 100 div 10) \<noteq> CHR 0x0A"
    by (rule digit_char_not_newline) (simp add: div_less_iff_less_mult)
  have b: "digit_char (?r mod 10) \<noteq> CHR 0x0A"
    by (rule digit_char_not_newline) simp
  show ?thesis
    using a b
    by (intro line_count_none) (auto simp: fmt_2f_def Let_def pad_left_def show_nat_no_newline)
qed

lemma log_line_one_line:
  assumes "lab = ''Servo'' \<or> lab = ''Motor''"
  shows "line_count (log_line lab k a b) = 1"
proof -
  have sp: "line_count (replicate 16 CHR '' '') = 0"
    by (rule line_count_none) simp
  show ?thesis
    using assms by (auto simp: log_line_def fmt_4d_no_newline fmt_2f_no_newline sp)
qed

lemma chunks_step: "xs \<noteq> [] \<Longrightarrow> 0 < n \<Longrightarrow> chunks n xs = take n xs # chunks n (drop n xs)"
  by (cases xs) simp_all

lemma those_replicate: "those (replicate n (Some x)) = Some (replicate n x)"
  by (induction n) simp_all

section \<open>The best epoch in the log line\<close>

text \<open>
  C6. For a non-empty sequence of epoch accuracies, the best-epoch index that
  \<open>plot_result\<close> formats into the log line is the 1-based index of a record that no
  record exceeds, and every record before it is strictly smaller (the first maximum).
\<close>

theorem best_epoch_in_log_line:
  assumes "accs \<noteq> []"
  shows "\<exists>i. best_epoch accs = Inr i \<and> 1 \<le> i \<and> i \<le> int (length accs)
    \<and> (\<forall>j < length accs. accs ! j \<le> accs ! nat (i - 1))
    \<and> (\<forall>j < nat (i - 1). accs ! j < accs ! nat (i - 1))
    \<and> (\<forall>s epoch. (stype s = ''servo'' \<or> stype s = ''motor'') \<and> 1 \<le> epoch \<and> epoch \<le> int (length accs) \<longrightarrow>
         log_content s epoch accs
           = Inr (log_line (if stype s = ''motor'' then ''Motor'' else ''Servo'') epoch
                    (accs ! nat (epoch - 1)) i))"
proof -
  from np_argmax_first_max[OF assms] obtain k where
    k: "np_argmax accs = Inr k" "k < length accs"
       "\<forall>j < length accs. accs ! j \<le> accs ! k"
       "\<forall>j < k. accs ! j < accs ! k"
    by blast
  have b: "best_epoch accs = Inr (int k + 1)"
    by (simp add: best_epoch_def k(1))
  have idx: "py_index accs (epoch - 1) = Inr (accs ! nat (epoch - 1))"
    if "1 \<le> epoch" "epoch \<le> int (length accs)" for epoch
    using that by (simp add: py_index_def Let_def)
  show ?thesis
  proof (intro exI[of _ "int k + 1"] conjI)
    show "\<forall>s epoch. (stype s = ''servo'' \<or> stype s = ''motor'') \<and> 1 \<le> epoch \<and> epoch \<le> int (length accs) \<longrightarrow>
         log_content s epoch accs
           = Inr (log_line (if stype s = ''motor'' then ''Motor'' else ''Servo'') epoch
                    (accs ! nat (epoch - 1)) (int k + 1))"
      by (simp add: log_content_def b idx)
  qed (use k b in simp_all)
qed

theorem best_epoch_in_log_line_witness:
  "[60, 75, 90 :: rat] \<noteq> [] \<and> best_epoch [60, 75, 90] = Inr 3 \<and> best_epoch [60, 90, 90] = Inr 2"
proof -
  have "best_epoch [60, 75, 90] = Inr 3"
    using best_epoch_in_log_line[of "[60, 75, 90]"]
    by (simp add: best_epoch_def np_argmax_def)
  moreover have "best_epoch [60, 90, 90] = Inr 2"
    by (simp add: best_epoch_def np_argmax_def)
  ultimately show ?thesis by simp
qed


section \<open>Evaluating concrete sessions\<close>

lemmas eval_defs = test_def pd_read_csv_def DataLoader_def load_batch_def set_io_def to_device_def
  count_true_def torch_round_def round_half_even_def true_div_def Let_def
  train_epoch_def epoch_batches_def epoch_end_def train_step_def
  mse_loss_def save_model_def plot_result_def plot_curve_def log_content_def best_epoch_def
  np_argmax_def py_index_def append_text_def path_join_def ODIR_def model_path_def
  finish_message_def those_replicate sum_list_replicate chunks_step

lemmas train_defs = train_def train_frame_def train_setup_def

section \<open>The evaluation loop\<close>

lemma concat_chunks: "0 < n \<Longrightarrow> concat (chunks n xs) = xs"
proof (induction n xs rule: chunks.induct)
  case (1 n)
  then show ?case by simp
next
  case (2 n x xs)
  then have "concat (chunks n (drop n (x # xs))) = drop n (x # xs)" by simp
  with 2 show ?case by (simp del: take_Suc_Cons drop_Suc_Cons take_Cons' drop_Cons')
qed

lemma those_map_total:
  "\<forall>p \<in> set c. f p \<noteq> None \<Longrightarrow> those (map f c) = Some (map (the \<circ> f) c)"
  by (induction c) auto

lemma load_batch_total:
  assumes "\<forall>p \<in> set c. getitem E p \<noteq> None"
  shows "load_batch E c = Inr (map (fst \<circ> (the \<circ> getitem E)) c,
                               map (fst \<circ> snd \<circ> (the \<circ> getitem E)) c,
                               map (snd \<circ> snd \<circ> (the \<circ> getitem E)) c)"
  using those_map_total[OF assms] by (simp add: load_batch_def comp_def)

lemma load_batch_error: "load_batch E c = Inl e \<Longrightarrow> e = DatasetError"
  by (auto simp: load_batch_def split: option.splits)

lemma set_io_error: "set_io s b = Inl e \<Longrightarrow> e = UnboundLocalError"
  by (auto simp: set_io_def split: prod.splits if_splits)

lemma batch_hits:
  assumes "\<forall>p \<in> set c. getitem E p \<noteq> None"
  shows "count_true
           (map2 (\<lambda>t y. \<bar>t - y\<bar> \<le> 1)
              (map ((if stype s = ''motor'' then snd \<circ> snd else fst \<circ> snd) \<circ> (the \<circ> getitem E)) c)
              (map (torch_round \<circ> forward E m) (map (fst \<circ> (the \<circ> getitem E)) c)))
         = length (filter (within_band E s m) c)"
  using assms
proof (induction c)
  case Nil
  then show ?case by (simp add: count_true_def)
next
  case (Cons p c)
  then obtain img sv mt where "getitem E p = Some (img, sv, mt)" by (cases "getitem E p") auto
  with Cons show ?case by (simp add: within_band_def count_true_def)
qed

lemma test_loop_step:
  assumes "load_batch E c = Inr b" and "set_io s b = Inr (input, target)"
    and "count + batch_size s \<noteq> 0"
  shows "\<exists>ou'. test_loop E s m display (c # cs) (tot, count, ou)
           = test_loop E s m display cs
               (tot + of_nat (count_true (map2 (\<lambda>t y. \<bar>t - y\<bar> \<le> 1) target
                                           (map (torch_round \<circ> forward E m) input))),
                count + batch_size s, ou')"
  using assms by (cases display) (auto simp: Let_def true_div_def)

lemma test_loop_total:
  assumes "\<forall>p \<in> set (concat cs). getitem E p \<noteq> None"
    and "stype s = ''servo'' \<or> stype s = ''motor''"
    and "0 < batch_size s" and "0 \<le> count"
  shows "fst (test_loop E s m display cs (tot, count, ou))
           = Inr (tot + of_nat (length (filter (within_band E s m) (concat cs))),
                  count + batch_size s * int (length cs))"
  using assms
proof (induction cs arbitrary: tot count ou)
  case Nil
  then show ?case by simp
next
  case (Cons c cs)
  have ld: "\<forall>p \<in> set c. getitem E p \<noteq> None" and rest: "\<forall>p \<in> set (concat cs). getitem E p \<noteq> None"
    using Cons.prems(1) by auto
  have pos: "0 \<le> count + batch_size s" "count + batch_size s \<noteq> 0"
    using Cons.prems(3,4) by auto
  note IH = Cons.IH[OF rest Cons.prems(2,3) pos(1)]
  let ?g = "the \<circ> getitem E"
  let ?lab = "(if stype s = ''motor'' then snd \<circ> snd else fst \<circ> snd) \<circ> ?g"
  have io: "set_io s (map (fst \<circ> ?g) c, map (fst \<circ> snd \<circ> ?g) c, map (snd \<circ> snd \<circ> ?g) c)
              = Inr (map (fst \<circ> ?g) c, map ?lab c)"
    using Cons.prems(2) by (auto simp: set_io_def)
  from test_loop_step[OF load_batch_total[OF ld] io pos(2), of m display cs tot ou]
  obtain ou' where
    "test_loop E s m display (c # cs) (tot, count, ou)
       = test_loop E s m display cs
           (tot + of_nat (count_true (map2 (\<lambda>t y. \<bar>t - y\<bar> \<le> 1) (map ?lab c)
                                       (map (torch_round \<circ> forward E m) (map (fst \<circ> ?g) c)))),
            count + batch_size s, ou')"
    by blast
  then show ?case
    by (simp only: IH batch_hits[OF ld]) (simp add: algebra_simps)
qed

lemma test_loop_no_zero_division:
  assumes "0 < batch_size s" and "0 \<le> count"
  shows "fst (test_loop E s m display cs (tot, count, ou)) \<noteq> Inl ZeroDivisionError"
  using assms
proof (induction cs arbitrary: tot count ou)
  case Nil
  then show ?case by simp
next
  case (Cons c cs)
  have pos: "0 \<le> count + batch_size s" "count + batch_size s \<noteq> 0"
    using Cons.prems by auto
  note IH = Cons.IH[OF Cons.prems(1) pos(1)]
  show ?case
  proof (cases "load_batch E c")
    case (Inl e)
    then show ?thesis using load_batch_error[OF Inl] by simp
  next
    case (Inr b)
    show ?thesis
    proof (cases "set_io s b")
      case (Inl e)
      then show ?thesis using set_io_error[OF Inl] Inr by (simp add: Let_def)
    next
      case io: (Inr it)
      obtain input target where it: "it = (input, target)" by (cases it)
      from test_loop_step[OF Inr io[unfolded it] pos(2), of m display cs tot ou]
      show ?thesis using IH by auto
    qed
  qed
qed

lemma test_loop_frame:
  assumes "stype s' = stype s" and "batch_size s' = batch_size s"
  shows "fst (test_loop E s' m display cs (tot, count, ou'))
       = fst (test_loop E s m display cs (tot, count, ou))"
  using assms
proof (induction cs arbitrary: tot count ou ou')
  case Nil
  then show ?case by simp
next
  case (Cons c cs)
  show ?case
  proof (cases "load_batch E c")
    case (Inl e)
    then show ?thesis by simp
  next
    case (Inr b)
    have io: "set_io s' b = set_io s b" using Cons.prems by (cases b) (simp add: set_io_def)
    show ?thesis
    proof (cases "set_io s b")
      case (Inl e)
      then show ?thesis using Inr io by (simp add: Let_def)
    next
      case (Inr it)
      obtain input target where it: "it = (input, target)" by (cases it)
      show ?thesis
        using Cons.IH[OF Cons.prems] Cons.prems
        by (cases display) (simp_all add: \<open>load_batch E c = Inr b\<close> io Inr it Let_def true_div_def)
    qed
  qed
qed


lemma within_band_frame: "stype s' = stype s \<Longrightarrow> within_band E s' m = within_band E s m"
  by (rule ext) (auto simp: within_band_def split: option.splits)

lemma to_device_fields [simp]:
  "stype (to_device s) = stype s" "batch_size (to_device s) = batch_size s"
  "model (to_device s) = model s" "cuda (to_device s) = cuda s"
  "epochs (to_device s) = epochs s" "logf (to_device s) = logf s"
  "to_device (to_device s) = to_device s"
  by (simp_all add: to_device_def)

lemma test_result_frame:
  assumes "fs w2 = fs w" and "s2 = s \<or> s2 = to_device s"
  shows "fst (test E s2 w2 testset display) = fst (test E s w testset display)"
proof -
  have rd: "pd_read_csv w2 testset = pd_read_csv w testset"
    using assms(1) by (simp add: pd_read_csv_def)
  have f: "model s2 = model s" "batch_size s2 = batch_size s" "stype s2 = stype s"
    using assms(2) by auto
  show ?thesis
  proof (cases "pd_read_csv w testset")
    case (Inl e)
    then show ?thesis by (simp add: test_def rd)
  next
    case (Inr ts)
    show ?thesis
    proof (cases "model s")
      case None
      then show ?thesis by (simp add: test_def rd Inr f)
    next
      case (Some m)
      have lp: "fst (test_loop E (to_device s2) m display (chunks (nat (batch_size s)) ts) (0, 0, out w2))
              = fst (test_loop E (to_device s) m display (chunks (nat (batch_size s)) ts) (0, 0, out w))"
        by (rule test_loop_frame) (simp_all add: f)
      show ?thesis
      proof (cases "DataLoader ts (batch_size s) False")
        case (Inl e)
        then show ?thesis by (simp add: test_def rd Inr Some f Let_def)
      next
        case dl: (Inr u)
        show ?thesis
          using lp
          by (auto simp: test_def rd Inr Some f Let_def dl true_div_def
                split: prod.splits sum.splits)
      qed
    qed
  qed
qed

lemma test_state:
  assumes "test E s w testset display = (r, s', w')"
  shows "(s' = s \<or> s' = to_device s) \<and> fs w' = fs w \<and> rng w' = rng w"
  using assms
  by (auto simp: test_def Let_def split: sum.splits option.splits prod.splits if_splits)

text \<open>
  C7. \<open>test\<close> leaves the model parameters as they are (it only moves the module to the
  device), writes no file and draws no random number; called again on the state it
  leaves, with the same manifest, it returns the same value.
\<close>

theorem test_leaves_model:
  assumes "test E s w testset display = (r, s', w')"
  shows "model s' = model s \<and> fs w' = fs w \<and> rng w' = rng w
       \<and> fst (test E s' w' testset display) = r"
proof -
  from test_state[OF assms] have st: "s' = s \<or> s' = to_device s" "fs w' = fs w" "rng w' = rng w"
    by auto
  have "fst (test E s' w' testset display) = fst (test E s w testset display)"
    by (rule test_result_frame[OF st(2) st(1)])
  with assms st show ?thesis by auto
qed

theorem test_leaves_model_witness:
  "model (fst (snd (test demo_collab demo_servo demo_world ''test.csv'' True))) = Some 0
   \<and> on_gpu (fst (snd (test demo_collab demo_servo demo_world ''test.csv'' True)))
   \<and> fst (test demo_collab (fst (snd (test demo_collab demo_servo demo_world ''test.csv'' True)))
             (snd (snd (test demo_collab demo_servo demo_world ''test.csv'' True))) ''test.csv'' True)
       = fst (test demo_collab demo_servo demo_world ''test.csv'' True)"
proof -
  have g: "on_gpu (fst (snd (test demo_collab demo_servo demo_world ''test.csv'' True)))"
    by (simp add: eval_defs demo_collab_def demo_servo_def demo_world_def)
  have m: "model demo_servo = Some 0" by (simp add: demo_servo_def)
  show ?thesis
    using test_leaves_model[of demo_collab demo_servo demo_world "''test.csv''" True
        "fst (test demo_collab demo_servo demo_world ''test.csv'' True)"
        "fst (snd (test demo_collab demo_servo demo_world ''test.csv'' True))"
        "snd (snd (test demo_collab demo_servo demo_world ''test.csv'' True))"] g m
    by simp
qed

text \<open>
  C1, as amended. For a non-empty manifest whose items all load, \<open>test\<close> returns
  100 times the number of examples whose label and rounded prediction differ by at most
  one, divided by the number of examples of the manifest (whatever the batch size), a
  value between 0 and 100. For batch size 2, labels 3, 5, 2, 8, 1 and predictions
  3, 4, 2, 9, 1 every example is within the band and the result is 100.
\<close>

theorem test_accuracy:
  assumes "pd_read_csv w testset = Inr ts" and "ts \<noteq> []"
    and "\<forall>p \<in> set ts. getitem E p \<noteq> None"
    and "model s = Some m" and "0 < batch_size s"
    and "stype s = ''servo'' \<or> stype s = ''motor''"
  shows "fst (test E s w testset display)
           = Inr (of_nat (length (filter (within_band E s m) ts)) * 100 / of_nat (length ts))
       \<and> (0::rat) \<le> of_nat (length (filter (within_band E s m) ts)) * 100 / of_nat (length ts)
       \<and> of_nat (length (filter (within_band E s m) ts)) * 100 / of_nat (length ts) \<le> (100::rat)
       \<and> fst (test demo_collab demo_servo demo_world ''test.csv'' False) = Inr 100"
proof -
  let ?cs = "chunks (nat (batch_size s)) ts"
  have cc: "concat ?cs = ts" using assms(5) by (simp add: concat_chunks)
  have wb: "within_band E (to_device s) m = within_band E s m" by (rule within_band_frame) simp
  have "fst (test_loop E (to_device s) m display ?cs (0, 0, out w))
          = Inr (0 + of_nat (length (filter (within_band E (to_device s) m) (concat ?cs))),
                 0 + batch_size (to_device s) * int (length ?cs))"
    by (rule test_loop_total) (use assms cc in \<open>simp_all del: concat_eq_Nil_conv\<close>)
  then obtain ou where lp: "test_loop E (to_device s) m display ?cs (0, 0, out w)
          = (Inr (of_nat (length (filter (within_band E s m) ts)), batch_size s * int (length ?cs)), ou)"
    by (cases "test_loop E (to_device s) m display ?cs (0, 0, out w)") (simp add: wb cc)
  have dl: "DataLoader ts (batch_size s) False = Inr ()"
    using assms(5) by (simp add: DataLoader_def)
  have res: "fst (test E s w testset display)
           = Inr (of_nat (length (filter (within_band E s m) ts)) * 100 / of_nat (length ts))"
    using assms(2) lp by (simp add: test_def assms(1,4) Let_def dl true_div_def)
  have le: "length (filter (within_band E s m) ts) \<le> length ts" by simp
  have n: "0 < length ts" using assms(2) by simp
  have up: "of_nat (length (filter (within_band E s m) ts)) * 100 / of_nat (length ts) \<le> (100::rat)"
    using le n by (simp add: divide_le_eq)
  have demo: "fst (test demo_collab demo_servo demo_world ''test.csv'' False) = Inr 100"
    by (simp add: eval_defs demo_collab_def demo_servo_def demo_world_def)
  show ?thesis using res up demo by simp
qed

theorem test_accuracy_witness:
  "pd_read_csv demo_world ''test.csv'' = Inr [''a'', ''b'', ''c'', ''d'', ''e'']
   \<and> [''a'', ''b'', ''c'', ''d'', ''e''] \<noteq> []
   \<and> model demo_servo = Some 0 \<and> 0 < batch_size demo_servo \<and> stype demo_servo = ''servo''
   \<and> fst (test demo_collab demo_servo demo_world ''test.csv'' True) = Inr (5 * 100 / 5)"
proof -
  have h1: "pd_read_csv demo_world ''test.csv'' = Inr [''a'', ''b'', ''c'', ''d'', ''e'']"
    by (simp add: pd_read_csv_def demo_world_def)
  have h2: "\<forall>p \<in> set [''a'', ''b'', ''c'', ''d'', ''e'']. getitem demo_collab p \<noteq> None"
    by (simp add: demo_collab_def)
  have h3: "model demo_servo = Some 0" "(0::int) < batch_size demo_servo"
    "stype demo_servo = ''servo'' \<or> stype demo_servo = ''motor''"
    by (simp_all add: demo_servo_def)
  have c: "length (filter (within_band demo_collab demo_servo 0) [''a'', ''b'', ''c'', ''d'', ''e'']) = 5"
    by (simp add: within_band_def demo_collab_def demo_servo_def torch_round_def round_half_even_def)
  show ?thesis
    using test_accuracy[OF h1 _ h2 h3, of True] h1 h3 c by (simp add: demo_servo_def)
qed

text \<open>
  The scenario of C1 as the claim states it: the labels 3, 5, 2, 8, 1 and the predictions
  3, 4, 2, 9, 1 with batch size 2 do not give 80.
\<close>

theorem test_scenario_not_80:
  "map (getitem demo_collab) [''a'', ''b'', ''c'', ''d'', ''e'']
     = [Some (3, 3, 0), Some (4, 5, 0), Some (2, 2, 0), Some (9, 8, 0), Some (1, 1, 0)]
   \<and> batch_size demo_servo = 2
   \<and> fst (test demo_collab demo_servo demo_world ''test.csv'' False) \<noteq> Inr 80"
  by (simp add: eval_defs demo_collab_def demo_servo_def demo_world_def)

text \<open>
  C9. \<open>test\<close> raises ZeroDivisionError exactly when the manifest is empty (and the call
  gets as far as the division: the file is read, the model exists, the batch size is
  positive).
\<close>

theorem test_empty_manifest:
  "fst (test E s w testset display) = Inl ZeroDivisionError
     \<longleftrightarrow> pd_read_csv w testset = Inr [] \<and> model s \<noteq> None \<and> 0 < batch_size s"
proof (cases "pd_read_csv w testset")
  case (Inl e)
  then have "e = FileNotFoundError"
    by (auto simp: pd_read_csv_def split: option.splits entry.splits)
  with Inl show ?thesis by (simp add: test_def)
next
  case (Inr ts)
  show ?thesis
  proof (cases "model s")
    case None
    then show ?thesis by (simp add: test_def Inr)
  next
    case (Some m)
    show ?thesis
    proof (cases "0 < batch_size s")
      case False
      then show ?thesis by (simp add: test_def Inr Some Let_def DataLoader_def)
    next
      case True
      have dl: "DataLoader ts (batch_size s) False = Inr ()"
        using True by (simp add: DataLoader_def)
      show ?thesis
      proof (cases "ts = []")
        case True
        then show ?thesis
          using \<open>0 < batch_size s\<close> by (simp add: test_def Inr Some Let_def DataLoader_def true_div_def)
      next
        case False
        have nz: "fst (test_loop E (to_device s) m display (chunks (nat (batch_size s)) ts) (0, 0, out w))
                    \<noteq> Inl ZeroDivisionError"
          by (rule test_loop_no_zero_division) (use \<open>0 < batch_size s\<close> in simp_all)
        obtain r ou where lp: "test_loop E (to_device s) m display (chunks (nat (batch_size s)) ts) (0, 0, out w) = (r, ou)"
          by (cases "test_loop E (to_device s) m display (chunks (nat (batch_size s)) ts) (0, 0, out w)")
        have "fst (test E s w testset display) \<noteq> Inl ZeroDivisionError"
          using nz False
          by (cases r) (auto simp: test_def Inr Some Let_def dl true_div_def lp)
        then show ?thesis using False Inr by simp
      qed
    qed
  qed
qed

theorem test_empty_manifest_witness:
  "fst (test demo_collab demo_servo demo_world ''empty.csv'' False) = Inl ZeroDivisionError
   \<and> fst (test demo_collab demo_servo demo_world ''test.csv'' False) \<noteq> Inl ZeroDivisionError"
  using test_empty_manifest[of demo_collab demo_servo demo_world "''empty.csv''" False]
    test_empty_manifest[of demo_collab demo_servo demo_world "''test.csv''" False]
  by (simp add: pd_read_csv_def demo_world_def demo_servo_def)

section \<open>The training loop\<close>

lemma train_step_fields:
  assumes "train_step E epoch c fr = (r, fr')"
  shows "stype (self fr') = stype (self fr)" "batch_size (self fr') = batch_size (self fr)"
    "logf (self fr') = logf (self fr)" "epochs (self fr') = epochs (self fr)"
    "fs (wld fr') = fs (wld fr)" "rng (wld fr') = rng (wld fr)"
    "total_loss fr' = total_loss fr" "dev_accuracy fr' = dev_accuracy fr"
    "accuracy fr' = accuracy fr" "model (self fr) \<noteq> None \<Longrightarrow> model (self fr') \<noteq> None"
  using assms
  by (auto simp: train_step_def Let_def split: sum.splits option.splits prod.splits if_splits)

lemma train_step_failure:
  assumes "train_step E epoch c fr = (Inl e, fr')"
  shows "model (self fr') = model (self fr)" "out (wld fr') = out (wld fr)"
  using assms
  by (auto simp: train_step_def Let_def split: sum.splits option.splits prod.splits if_splits)

lemma train_step_report:
  assumes "train_step E epoch c fr = (Inr u, fr')"
  shows "batch fr' = batch fr + batch_size (self fr)"
    and "batch fr' mod 100 = 0 \<Longrightarrow>
           running_loss fr' = 0 \<and>
           out (wld fr') = out (wld fr) @ [TrainProgress epoch (batch fr') (epoch_loss fr') (accuracy fr)]"
    and "batch fr' mod 100 \<noteq> 0 \<Longrightarrow> out (wld fr') = out (wld fr)"
  using assms
  by (auto simp: train_step_def Let_def split: sum.splits option.splits prod.splits if_splits)

lemma train_batches_fields:
  assumes "train_batches E epoch cs fr = (r, fr')"
  shows "stype (self fr') = stype (self fr) \<and> batch_size (self fr') = batch_size (self fr)
    \<and> logf (self fr') = logf (self fr) \<and> epochs (self fr') = epochs (self fr)
    \<and> fs (wld fr') = fs (wld fr) \<and> rng (wld fr') = rng (wld fr)
    \<and> total_loss fr' = total_loss fr \<and> dev_accuracy fr' = dev_accuracy fr
    \<and> accuracy fr' = accuracy fr"
  using assms
proof (induction cs arbitrary: fr)
  case Nil
  then show ?case by simp
next
  case (Cons c cs)
  obtain r1 fr1 where st: "train_step E epoch c fr = (r1, fr1)" by (cases "train_step E epoch c fr")
  note f = train_step_fields[OF st]
  show ?case
  proof (cases r1)
    case (Inl e)
    with Cons.prems st f show ?thesis by simp
  next
    case (Inr u)
    with Cons.prems st have "train_batches E epoch cs fr1 = (r, fr')" by simp
    from Cons.IH[OF this] f show ?thesis by simp
  qed
qed

lemma upt_shift: "map f [Suc 0..<Suc (Suc n)] = f (Suc 0) # map (\<lambda>j. f (Suc j)) [Suc 0..<Suc n]"
proof -
  have "[Suc 0..<Suc (Suc n)] = Suc 0 # map Suc [Suc 0..<Suc n]"
    by (simp add: upt_conv_Cons map_Suc_upt del: upt_Suc)
  then show ?thesis by (simp add: comp_def del: upt_Suc)
qed

lemma train_batches_reports:
  assumes "train_batches E epoch cs fr = (Inr u, fr')"
  shows "\<exists>evs. out (wld fr') = out (wld fr) @ evs
          \<and> progress_counts evs
              = filter (\<lambda>b. b mod 100 = 0)
                  (map (\<lambda>j. batch fr + int j * batch_size (self fr)) [1..<Suc (length cs)])
          \<and> length evs = length (progress_counts evs)"
  using assms
proof (induction cs arbitrary: fr)
  case Nil
  then show ?case by simp
next
  case (Cons c cs)
  obtain r1 fr1 where st: "train_step E epoch c fr = (r1, fr1)" by (cases "train_step E epoch c fr")
  with Cons.prems obtain u1 where r1: "r1 = Inr u1" by (cases r1) auto
  with Cons.prems st have rest: "train_batches E epoch cs fr1 = (Inr u, fr')" by simp
  note f = train_step_fields[OF st]
  note rp = train_step_report[OF st[unfolded r1]]
  from Cons.IH[OF rest] obtain evs where
    evs: "out (wld fr') = out (wld fr1) @ evs"
      "progress_counts evs = filter (\<lambda>b. b mod 100 = 0)
          (map (\<lambda>j. batch fr1 + int j * batch_size (self fr1)) [1..<Suc (length cs)])"
      "length evs = length (progress_counts evs)"
    by blast
  let ?g = "\<lambda>j. batch fr + int j * batch_size (self fr)"
  let ?g1 = "\<lambda>j. batch fr1 + int j * batch_size (self fr1)"
  have shift: "(\<lambda>j. ?g (Suc j)) = ?g1"
    by (rule ext) (simp add: rp(1) f(2) algebra_simps)
  have g1: "?g (Suc 0) = batch fr1" by (simp add: rp(1))
  have "map ?g [Suc 0..<Suc (Suc (length cs))] = ?g (Suc 0) # map (\<lambda>j. ?g (Suc j)) [Suc 0..<Suc (length cs)]"
    by (rule upt_shift)
  then have lst: "map ?g [Suc 0..<Suc (Suc (length cs))] = batch fr1 # map ?g1 [Suc 0..<Suc (length cs)]"
    by (simp only: shift g1)
  have goal_list: "map ?g [1..<Suc (length (c # cs))] = batch fr1 # map ?g1 [1..<Suc (length cs)]"
    using lst by (simp del: upt_Suc)
  show ?case
  proof (cases "batch fr1 mod 100 = 0")
    case True
    with rp(2) have
      o1: "out (wld fr1) = out (wld fr) @ [TrainProgress epoch (batch fr1) (epoch_loss fr1) (accuracy fr)]"
      by blast
    show ?thesis
      by (rule exI[of _ "TrainProgress epoch (batch fr1) (epoch_loss fr1) (accuracy fr) # evs"])
         (simp only: goal_list, simp add: True evs o1 del: upt_Suc)
  next
    case False
    with rp(3) have o1: "out (wld fr1) = out (wld fr)" by simp
    show ?thesis
      by (rule exI[of _ evs]) (simp only: goal_list, simp add: False evs o1 del: upt_Suc)
  qed
qed

lemma train_batches_total:
  assumes "\<forall>p \<in> set (concat cs). getitem E p \<noteq> None"
    and "stype (self fr) = ''servo'' \<or> stype (self fr) = ''motor''"
    and "model (self fr) \<noteq> None"
  shows "\<exists>fr'. train_batches E epoch cs fr = (Inr (), fr')"
  using assms
proof (induction cs arbitrary: fr)
  case Nil
  then show ?case by simp
next
  case (Cons c cs)
  have ld: "\<forall>p \<in> set c. getitem E p \<noteq> None" and rest: "\<forall>p \<in> set (concat cs). getitem E p \<noteq> None"
    using Cons.prems(1) by auto
  obtain m where m: "model (self fr) = Some m" using Cons.prems(3) by auto
  have "\<exists>fr1. train_step E epoch c fr = (Inr (), fr1)"
    using Cons.prems(2) m
    by (auto simp: train_step_def load_batch_total[OF ld] set_io_def Let_def split: prod.splits)
  then obtain fr1 where st: "train_step E epoch c fr = (Inr (), fr1)" by blast
  note f = train_step_fields[OF st]
  from Cons.IH[of fr1, OF rest] Cons.prems(2,3) f obtain fr' where
    "train_batches E epoch cs fr1 = (Inr (), fr')" by auto
  with st show ?case by simp
qed

lemma save_model_ok:
  assumes "save_model s w p = (Inr u, w')" and "stype s = ''servo'' \<or> stype s = ''motor''"
  shows "\<exists>m. model s = Some m \<and> fs w' = (fs w)(p \<mapsto> Weights m)"
  using assms by (auto simp: save_model_def Let_def split: option.splits if_splits)

lemma plot_curve_ok:
  assumes "plot_curve s w k ys name = (Inr u, w')" and "name = ''Loss'' \<or> name = ''Accuracy''"
  shows "(stype s = ''servo'' \<or> stype s = ''motor'') \<and> int (length ys) = max 0 k
       \<and> (\<exists>p t. fs w' = (fs w)(p \<mapsto> Figure t ys) \<and> p \<noteq> log_path \<and> (\<forall>j. p \<noteq> checkpoint_path j))"
proof -
  from assms(1) have ty: "stype s = ''servo'' \<or> stype s = ''motor''" and len: "int (length ys) = max 0 k"
    by (auto simp: plot_curve_def split: if_splits)
  let ?p = "ODIR @ ''/curves/'' @ (if stype s = ''servo'' then ''Servo '' else ''Motor '') @ name @ '' Curve.png''"
  let ?t = "(if stype s = ''servo'' then ''Servo'' else ''Motor'') @ '' Data Training''"
  have f: "fs w' = (fs w)(?p \<mapsto> Figure ?t ys)"
    using assms(1) ty by (auto simp: plot_curve_def split: if_splits)
  have "?p \<noteq> log_path" by (simp add: ODIR_def log_path_eq)
  moreover have "\<forall>j. ?p \<noteq> checkpoint_path j" by (simp add: ODIR_def checkpoint_path_eq)
  ultimately show ?thesis using ty len f by blast
qed

lemma append_text_ok:
  assumes "append_text w log_path t = (Inr u, w')"
  shows "fs w' = (fs w)(log_path \<mapsto> Text (log_text w @ t))"
  using assms
  by (auto simp: append_text_def log_text_def split: option.splits entry.splits)

lemma log_content_ok:
  assumes "log_content s k accs = Inr l"
  shows "line_count l = 1"
proof -
  from assms obtain lab a b where "l = log_line lab k a b" "lab = ''Servo'' \<or> lab = ''Motor''"
    by (auto simp: log_content_def split: if_splits sum.splits)
  then show ?thesis by (simp add: log_line_one_line)
qed

lemma plot_result_ok:
  assumes "plot_result s w k losses accs = (Inr u, w')" and "logf s = Some log_path"
  shows "(stype s = ''servo'' \<or> stype s = ''motor'')
       \<and> int (length losses) = max 0 k \<and> int (length accs) = max 0 k
       \<and> (\<exists>p1 t1 p2 t2 l. fs w' = (fs w)(p1 \<mapsto> Figure t1 losses, p2 \<mapsto> Figure t2 accs,
                                          log_path \<mapsto> Text (log_text w @ l))
              \<and> line_count l = 1
              \<and> p1 \<noteq> log_path \<and> p2 \<noteq> log_path
              \<and> (\<forall>j. p1 \<noteq> checkpoint_path j) \<and> (\<forall>j. p2 \<noteq> checkpoint_path j))"
proof -
  obtain r1 w1 where c1: "plot_curve s w k losses ''Loss'' = (r1, w1)"
    by (cases "plot_curve s w k losses ''Loss''")
  with assms(1) obtain u1 where r1: "r1 = Inr u1" by (cases r1) (auto simp: plot_result_def)
  obtain r2 w2 where c2: "plot_curve s w1 k accs ''Accuracy'' = (r2, w2)"
    by (cases "plot_curve s w1 k accs ''Accuracy''")
  with assms(1) c1 r1 obtain u2 where r2: "r2 = Inr u2" by (cases r2) (auto simp: plot_result_def)
  from assms c1 r1 c2 r2 obtain l where l: "log_content s k accs = Inr l"
    and ap: "append_text w2 log_path l = (Inr u, w')"
    by (cases "log_content s k accs") (auto simp: plot_result_def)
  from plot_curve_ok[OF c1[unfolded r1]] obtain p1 t1 where
    p1: "stype s = ''servo'' \<or> stype s = ''motor''" "int (length losses) = max 0 k"
        "fs w1 = (fs w)(p1 \<mapsto> Figure t1 losses)" "p1 \<noteq> log_path" "\<forall>j. p1 \<noteq> checkpoint_path j"
    by auto
  from plot_curve_ok[OF c2[unfolded r2]] obtain p2 t2 where
    p2: "int (length accs) = max 0 k"
        "fs w2 = (fs w1)(p2 \<mapsto> Figure t2 accs)" "p2 \<noteq> log_path" "\<forall>j. p2 \<noteq> checkpoint_path j"
    by auto
  have lt: "log_text w2 = log_text w"
    using p1(3,4) p2(2,3) by (simp add: log_text_def)
  have "fs w' = (fs w)(p1 \<mapsto> Figure t1 losses, p2 \<mapsto> Figure t2 accs, log_path \<mapsto> Text (log_text w @ l))"
    using append_text_ok[OF ap] by (simp add: lt p1(3) p2(2))
  with p1 p2 log_content_ok[OF l] show ?thesis by blast
qed

lemma epoch_end_ok:
  assumes "epoch_end E devset k fr = (Inr u, fr')" and "logf (self fr) = Some log_path"
  shows "length (total_loss fr') = Suc (length (total_loss fr))
       \<and> length (dev_accuracy fr') = Suc (length (dev_accuracy fr))
       \<and> int (length (total_loss fr')) = max 0 k
       \<and> logf (self fr') = Some log_path
       \<and> (\<exists>l. log_text (wld fr') = log_text (wld fr) @ l \<and> line_count l = 1)
       \<and> (\<exists>m. fs (wld fr') (checkpoint_path k) = Some (Weights m))
       \<and> (\<forall>p m. fs (wld fr') p = Some (Weights m) \<longrightarrow>
              p = checkpoint_path k \<or> fs (wld fr) p = Some (Weights m))
       \<and> (\<forall>j. (\<exists>m. fs (wld fr) (checkpoint_path j) = Some (Weights m)) \<longrightarrow>
              (\<exists>m. fs (wld fr') (checkpoint_path j) = Some (Weights m)))"
proof -
  obtain r s1 w1 where t: "test E (self fr) (wld fr) devset False = (r, s1, w1)"
    by (cases "test E (self fr) (wld fr) devset False")
  with assms(1) obtain acc where r: "r = Inr acc" by (cases r) (auto simp: epoch_end_def)
  from test_state[OF t] have st: "s1 = self fr \<or> s1 = to_device (self fr)" "fs w1 = fs (wld fr)"
    by auto
  have lg: "logf s1 = Some log_path" using st(1) assms(2) by auto
  let ?tl = "total_loss fr @ [epoch_loss fr]" and ?da = "dev_accuracy fr @ [acc]"
  obtain r4 w4 where sv: "save_model s1 w1 (checkpoint_path k) = (r4, w4)"
    by (cases "save_model s1 w1 (checkpoint_path k)")
  with assms(1) t r obtain u4 where r4: "r4 = Inr u4"
    by (cases r4) (auto simp: epoch_end_def Let_def checkpoint_path_def)
  obtain r5 w5 where pl: "plot_result s1 w4 k ?tl ?da = (r5, w5)"
    by (cases "plot_result s1 w4 k ?tl ?da")
  with assms(1) t r sv r4 obtain u5 where r5: "r5 = Inr u5"
    by (cases r5) (auto simp: epoch_end_def Let_def checkpoint_path_def)
  have fr': "self fr' = s1" "wld fr' = w5" "dev_accuracy fr' = ?da" "total_loss fr' = ?tl"
    using assms(1) t r sv r4 pl r5 by (auto simp: epoch_end_def Let_def checkpoint_path_def)
  from plot_result_ok[OF pl[unfolded r5] lg] obtain p1 t1 p2 t2 l where
    pr: "stype s1 = ''servo'' \<or> stype s1 = ''motor''" "int (length ?tl) = max 0 k"
        "fs w5 = (fs w4)(p1 \<mapsto> Figure t1 ?tl, p2 \<mapsto> Figure t2 ?da, log_path \<mapsto> Text (log_text w4 @ l))"
        "line_count l = 1" "p1 \<noteq> log_path" "p2 \<noteq> log_path"
        "\<forall>j. p1 \<noteq> checkpoint_path j" "\<forall>j. p2 \<noteq> checkpoint_path j"
    by blast
  from save_model_ok[OF sv[unfolded r4] pr(1)] obtain m where
    m: "fs w4 = (fs w1)(checkpoint_path k \<mapsto> Weights m)" by blast
  have lt4: "log_text w4 = log_text (wld fr)"
    using checkpoint_not_log[of k] by (simp add: log_text_def m st(2))
  have f5: "fs w5 = (fs (wld fr))(checkpoint_path k \<mapsto> Weights m, p1 \<mapsto> Figure t1 ?tl,
                p2 \<mapsto> Figure t2 ?da, log_path \<mapsto> Text (log_text (wld fr) @ l))"
    by (simp add: pr(3) m st(2) lt4)
  have a: "log_text (wld fr') = log_text (wld fr) @ l"
    by (simp add: fr' f5 log_text_def)
  have b: "fs (wld fr') (checkpoint_path k) = Some (Weights m)"
    using pr(7,8) checkpoint_not_log[of k] by (auto simp: fr' f5)
  have c: "\<forall>p m'. fs (wld fr') p = Some (Weights m') \<longrightarrow>
              p = checkpoint_path k \<or> fs (wld fr) p = Some (Weights m')"
    by (auto simp: fr' f5 split: if_splits)
  have d: "\<forall>j. (\<exists>m'. fs (wld fr) (checkpoint_path j) = Some (Weights m')) \<longrightarrow>
              (\<exists>m'. fs (wld fr') (checkpoint_path j) = Some (Weights m'))"
    using pr(7,8) checkpoint_not_log by (auto simp: fr' f5)
  show ?thesis
    using a b c d pr(2,4) lg by (simp add: fr')
qed

lemma epoch_batches_fields:
  assumes "epoch_batches E trainset fr = (cs, fr1)"
  shows "self fr1 = self fr" "fs (wld fr1) = fs (wld fr)" "out (wld fr1) = out (wld fr)"
    "total_loss fr1 = total_loss fr" "dev_accuracy fr1 = dev_accuracy fr"
    "batch fr1 = 0" "running_loss fr1 = 0" "epoch_loss fr1 = epoch_loss fr" "accuracy fr1 = accuracy fr"
  using assms by (auto simp: epoch_batches_def Let_def split: prod.splits)

lemma train_epoch_ok:
  assumes "train_epoch E trainset devset k fr = (Inr u, fr')" and "logf (self fr) = Some log_path"
  shows "length (total_loss fr') = Suc (length (total_loss fr))
       \<and> length (dev_accuracy fr') = Suc (length (dev_accuracy fr))
       \<and> int (length (total_loss fr')) = max 0 k
       \<and> logf (self fr') = Some log_path
       \<and> (\<exists>l. log_text (wld fr') = log_text (wld fr) @ l \<and> line_count l = 1)
       \<and> (\<exists>m. fs (wld fr') (checkpoint_path k) = Some (Weights m))
       \<and> (\<forall>p m. fs (wld fr') p = Some (Weights m) \<longrightarrow>
              p = checkpoint_path k \<or> fs (wld fr) p = Some (Weights m))
       \<and> (\<forall>j. (\<exists>m. fs (wld fr) (checkpoint_path j) = Some (Weights m)) \<longrightarrow>
              (\<exists>m. fs (wld fr') (checkpoint_path j) = Some (Weights m)))"
proof -
  obtain cs fr1 where eb: "epoch_batches E trainset fr = (cs, fr1)"
    by (cases "epoch_batches E trainset fr")
  obtain r2 fr2 where tb: "train_batches E k cs fr1 = (r2, fr2)"
    by (cases "train_batches E k cs fr1")
  with assms(1) eb obtain u2 where r2: "r2 = Inr u2" by (cases r2) (auto simp: train_epoch_def)
  with assms(1) eb tb have ee: "epoch_end E devset k fr2 = (Inr u, fr')"
    by (simp add: train_epoch_def)
  note f1 = epoch_batches_fields[OF eb]
  note f2 = train_batches_fields[OF tb]
  have lg: "logf (self fr2) = Some log_path" using f1 f2 assms(2) by simp
  have same: "fs (wld fr2) = fs (wld fr)" "total_loss fr2 = total_loss fr"
    "dev_accuracy fr2 = dev_accuracy fr" "log_text (wld fr2) = log_text (wld fr)"
    using f1 f2 by (simp_all add: log_text_def)
  from epoch_end_ok[OF ee lg, unfolded same] show ?thesis .
qed

lemma train_epochs_ok:
  assumes "train_epochs E trainset devset ks fr = (Inr u, fr')" and "logf (self fr) = Some log_path"
  shows "length (total_loss fr') = length (total_loss fr) + length ks
       \<and> length (dev_accuracy fr') = length (dev_accuracy fr) + length ks
       \<and> (\<exists>ls. length ls = length ks \<and> (\<forall>l \<in> set ls. line_count l = 1)
              \<and> log_text (wld fr') = log_text (wld fr) @ concat ls)
       \<and> (\<forall>k \<in> set ks. \<exists>m. fs (wld fr') (checkpoint_path k) = Some (Weights m))
       \<and> (\<forall>p m. fs (wld fr') p = Some (Weights m) \<longrightarrow>
              p \<in> checkpoint_path ` set ks \<or> fs (wld fr) p = Some (Weights m))
       \<and> (\<forall>j. (\<exists>m. fs (wld fr) (checkpoint_path j) = Some (Weights m)) \<longrightarrow>
              (\<exists>m. fs (wld fr') (checkpoint_path j) = Some (Weights m)))"
  using assms
proof (induction ks arbitrary: fr)
  case Nil
  then show ?case by simp
next
  case (Cons k ks)
  obtain r1 fr1 where te: "train_epoch E trainset devset k fr = (r1, fr1)"
    by (cases "train_epoch E trainset devset k fr")
  with Cons.prems(1) obtain u1 where r1: "r1 = Inr u1" by (cases r1) auto
  with Cons.prems(1) te have rest: "train_epochs E trainset devset ks fr1 = (Inr u, fr')" by simp
  from train_epoch_ok[OF te[unfolded r1] Cons.prems(2)] obtain l where
    e: "length (total_loss fr1) = Suc (length (total_loss fr))"
       "length (dev_accuracy fr1) = Suc (length (dev_accuracy fr))"
       "logf (self fr1) = Some log_path"
       "log_text (wld fr1) = log_text (wld fr) @ l" "line_count l = 1"
       "\<exists>m. fs (wld fr1) (checkpoint_path k) = Some (Weights m)"
       "\<forall>p m. fs (wld fr1) p = Some (Weights m) \<longrightarrow>
              p = checkpoint_path k \<or> fs (wld fr) p = Some (Weights m)"
       "\<forall>j. (\<exists>m. fs (wld fr) (checkpoint_path j) = Some (Weights m)) \<longrightarrow>
              (\<exists>m. fs (wld fr1) (checkpoint_path j) = Some (Weights m))"
    by blast
  from Cons.IH[OF rest e(3)] obtain ls where
    i: "length (total_loss fr') = length (total_loss fr1) + length ks"
       "length (dev_accuracy fr') = length (dev_accuracy fr1) + length ks"
       "length ls = length ks" "\<forall>l \<in> set ls. line_count l = 1"
       "log_text (wld fr') = log_text (wld fr1) @ concat ls"
       "\<forall>k \<in> set ks. \<exists>m. fs (wld fr') (checkpoint_path k) = Some (Weights m)"
       "\<forall>p m. fs (wld fr') p = Some (Weights m) \<longrightarrow>
              p \<in> checkpoint_path ` set ks \<or> fs (wld fr1) p = Some (Weights m)"
       "\<forall>j. (\<exists>m. fs (wld fr1) (checkpoint_path j) = Some (Weights m)) \<longrightarrow>
              (\<exists>m. fs (wld fr') (checkpoint_path j) = Some (Weights m))"
    by blast
  have lines: "\<exists>ls'. length ls' = length (k # ks) \<and> (\<forall>l \<in> set ls'. line_count l = 1)
              \<and> log_text (wld fr') = log_text (wld fr) @ concat ls'"
    by (rule exI[of _ "l # ls"]) (simp add: i e)
  have ck: "\<forall>k' \<in> set (k # ks). \<exists>m. fs (wld fr') (checkpoint_path k') = Some (Weights m)"
    using i(6,8) e(6) by auto
  have nw: "\<forall>p m. fs (wld fr') p = Some (Weights m) \<longrightarrow>
              p \<in> checkpoint_path ` set (k # ks) \<or> fs (wld fr) p = Some (Weights m)"
  proof (intro allI impI)
    fix p m assume a: "fs (wld fr') p = Some (Weights m)"
    from i(7) a have "p \<in> checkpoint_path ` set ks \<or> fs (wld fr1) p = Some (Weights m)" by blast
    then show "p \<in> checkpoint_path ` set (k # ks) \<or> fs (wld fr) p = Some (Weights m)"
    proof
      assume "p \<in> checkpoint_path ` set ks"
      then show ?thesis by auto
    next
      assume "fs (wld fr1) p = Some (Weights m)"
      with e(7) have "p = checkpoint_path k \<or> fs (wld fr) p = Some (Weights m)" by blast
      then show ?thesis by auto
    qed
  qed
  have keep: "\<forall>j. (\<exists>m. fs (wld fr) (checkpoint_path j) = Some (Weights m)) \<longrightarrow>
              (\<exists>m. fs (wld fr') (checkpoint_path j) = Some (Weights m))"
    using i(8) e(8) by blast
  show ?case using lines ck nw keep i(1,2) e(1,2) by simp
qed

lemma line_count_concat:
  "\<forall>l \<in> set ls. line_count l = 1 \<Longrightarrow> line_count (concat ls) = length ls"
  by (induction ls) auto

lemma init_train_log:
  assumes "NNTools_init E settings types w0 = (Inr s, w)" and "epochs s = Some n"
  shows "logf s = Some log_path \<and> log_text w = []"
proof -
  from assms(1) obtain t0 t1 c where rs: "read_settings settings types = Inr (t0, t1, c)"
    by (cases "read_settings settings types") (auto simp: NNTools_init_def)
  have tr: "t1 = ''train''"
  proof (rule ccontr)
    assume "t1 \<noteq> ''train''"
    with assms(1) rs have "epochs s = None"
      by (auto simp: NNTools_init_def Let_def load_model_def
            split: if_splits prod.splits option.splits sum.splits entry.splits)
    with assms(2) show False by simp
  qed
  obtain mo w1 where bm: "build_model E t0 (c_shape c) w0 = (mo, w1)"
    by (cases "build_model E t0 (c_shape c) w0")
  from assms(1) rs tr bm obtain lg where so: "set_output w1 = (Inr lg, w)" and lg: "logf s = Some lg"
    by (auto simp: NNTools_init_def Let_def split: if_splits prod.splits sum.splits)
  from so have "lg = log_path \<and> fs w log_path = Some (Text [])"
    by (auto simp: set_output_def Let_def log_path_def split: if_splits)
  with lg show ?thesis by (simp add: log_text_def)
qed

lemma train_frame_ok:
  assumes "train_frame E s w trainset devset = Inr fr"
  shows "\<exists>ts n fr0 fr1 u. train_setup E s w trainset = Inr (ts, n, fr0)
          \<and> train_epochs E ts devset [1..n] fr0 = (Inr u, fr1)
          \<and> fr = fr1\<lparr>wld := finish_message (self fr1) (wld fr1)\<rparr>"
  using assms
  by (auto simp: train_frame_def split: sum.splits prod.splits)

lemma train_setup_ok:
  assumes "train_setup E s w trainset = Inr (ts, n, fr0)"
  shows "epochs s = Some n \<and> self fr0 = to_device s \<and> wld fr0 = w \<and> total_loss fr0 = []
       \<and> dev_accuracy fr0 = [] \<and> model s \<noteq> None \<and> pd_read_csv w trainset = Inr ts"
  using assms
  by (auto simp: train_setup_def Let_def split: sum.splits option.splits)

lemma finish_message_fs [simp]: "fs (finish_message s w) = fs w"
  by (simp add: finish_message_def Let_def)

lemma checkpoint_paths_card: "card (checkpoint_path ` {1..n}) = nat n"
proof -
  have "inj_on checkpoint_path {1..n}"
    by (rule inj_onI) (auto intro: checkpoint_path_inj)
  then have "card (checkpoint_path ` {1..n}) = card {1..n}" by (rule card_image)
  then show ?thesis by simp
qed

text \<open>
  C2. After the constructor of a training session and a \<open>train\<close> call that returns,
  with the epoch count \<open>n\<close> of the settings: the two result lists hold \<open>n\<close> values each,
  a checkpoint exists for each of the \<open>n\<close> epochs under \<open>n\<close> different names and no
  other checkpoint has appeared, the constructor left the log empty, and \<open>train\<close> has
  appended \<open>n\<close> pieces of text to it, each with one line feed: it has \<open>n\<close> lines.
\<close>

theorem train_completed_counts:
  assumes "NNTools_init E settings types w0 = (Inr s, w)"
    and "train_frame E s w trainset devset = Inr fr"
  shows "\<exists>n. epochs s = Some n
     \<and> length (total_loss fr) = nat n \<and> length (dev_accuracy fr) = nat n
     \<and> (\<forall>k \<in> {1..n}. \<exists>m. fs (wld fr) (checkpoint_path k) = Some (Weights m))
     \<and> card (checkpoint_path ` {1..n}) = nat n
     \<and> (\<forall>p m. fs (wld fr) p = Some (Weights m) \<longrightarrow>
            p \<in> checkpoint_path ` {1..n} \<or> fs w p = Some (Weights m))
     \<and> log_text w = []
     \<and> (\<exists>ls. length ls = nat n \<and> (\<forall>l \<in> set ls. line_count l = 1)
            \<and> log_text (wld fr) = log_text w @ concat ls)
     \<and> line_count (log_text (wld fr)) = nat n"
proof -
  from train_frame_ok[OF assms(2)] obtain ts n fr0 fr1 u where
    su: "train_setup E s w trainset = Inr (ts, n, fr0)"
    and lp: "train_epochs E ts devset [1..n] fr0 = (Inr u, fr1)"
    and fr: "fr = fr1\<lparr>wld := finish_message (self fr1) (wld fr1)\<rparr>"
    by blast
  from train_setup_ok[OF su] have
    s0: "epochs s = Some n" "self fr0 = to_device s" "wld fr0 = w" "total_loss fr0 = []"
        "dev_accuracy fr0 = []"
    by simp_all
  from init_train_log[OF assms(1) s0(1)] have lg: "logf s = Some log_path" "log_text w = []"
    by simp_all
  have lg0: "logf (self fr0) = Some log_path" by (simp add: s0 lg)
  from train_epochs_ok[OF lp lg0] obtain ls where
    r: "length (total_loss fr1) = length [1..n]" "length (dev_accuracy fr1) = length [1..n]"
       "length ls = length [1..n]" "\<forall>l \<in> set ls. line_count l = 1"
       "log_text (wld fr1) = log_text w @ concat ls"
       "\<forall>k \<in> set [1..n]. \<exists>m. fs (wld fr1) (checkpoint_path k) = Some (Weights m)"
       "\<forall>p m. fs (wld fr1) p = Some (Weights m) \<longrightarrow>
              p \<in> checkpoint_path ` set [1..n] \<or> fs w p = Some (Weights m)"
    unfolding s0 by auto
  have len: "length [1..n] = nat n" by simp
  have fsf: "fs (wld fr) = fs (wld fr1)" "total_loss fr = total_loss fr1"
    "dev_accuracy fr = dev_accuracy fr1" "log_text (wld fr) = log_text (wld fr1)"
    by (simp_all add: fr log_text_def)
  have lc: "line_count (log_text (wld fr)) = nat n"
    using line_count_concat[OF r(4)] by (simp add: fsf r(5) lg(2) r(3))
  have lines: "\<exists>ls. length ls = nat n \<and> (\<forall>l \<in> set ls. line_count l = 1)
            \<and> log_text (wld fr) = log_text w @ concat ls"
    by (rule exI[of _ ls]) (simp add: r(3,4,5) fsf)
  show ?thesis
    using s0(1) r(1,2,6,7) lc lines lg(2) checkpoint_paths_card[of n]
    by (simp add: fsf)
qed

theorem train_completed_counts_witness:
  "\<exists>s w fr. NNTools_init demo_collab demo_settings [''servo'', ''train''] demo_world = (Inr s, w)
      \<and> train_frame demo_collab s w ''train.csv'' ''test.csv'' = Inr fr
      \<and> epochs s = Some 2 \<and> length (total_loss fr) = 2 \<and> length (dev_accuracy fr) = 2
      \<and> line_count (log_text (wld fr)) = 2"
proof -
  define r where "r = NNTools_init demo_collab demo_settings [''servo'', ''train''] demo_world"
  define s where "s = projr (fst r)"
  define w where "w = snd r"
  have i: "NNTools_init demo_collab demo_settings [''servo'', ''train''] demo_world = (Inr s, w)"
    unfolding s_def w_def r_def
    by (simp add: NNTools_init_def read_settings_def py_index_def demo_settings_def build_model_def
          demo_collab_def set_output_def mkdir_missing_def path_join_def ODIR_def demo_world_def Let_def)
  have e: "epochs s = Some 2"
    unfolding s_def r_def
    by (simp add: NNTools_init_def read_settings_def py_index_def demo_settings_def build_model_def
          demo_collab_def set_output_def mkdir_missing_def path_join_def ODIR_def demo_world_def Let_def)
  have "fst (train demo_collab s w ''train.csv'' ''test.csv'') = Inr ()"
    unfolding s_def w_def r_def
    by (simp add: NNTools_init_def read_settings_def build_model_def SEED_def
          demo_settings_def set_output_def mkdir_missing_def
          eval_defs train_defs demo_collab_def demo_world_def upto.simps)
  then obtain fr where run: "train_frame demo_collab s w ''train.csv'' ''test.csv'' = Inr fr"
    by (cases "train_frame demo_collab s w ''train.csv'' ''test.csv''") (auto simp: train_def)
  from train_completed_counts[OF i run] e
  have "length (total_loss fr) = 2 \<and> length (dev_accuracy fr) = 2
      \<and> line_count (log_text (wld fr)) = 2"
    by auto
  with i run e show ?thesis by blast
qed


lemma train_batches_append:
  "train_batches E k finished fr1 = (Inr u, fr2) \<Longrightarrow>
     train_batches E k (finished @ cs) fr1 = train_batches E k cs fr2"
proof (induction finished arbitrary: fr1)
  case Nil
  then show ?case by simp
next
  case (Cons c finished)
  obtain r fr' where st: "train_step E k c fr1 = (r, fr')" by (cases "train_step E k c fr1")
  with Cons.prems obtain u' where r: "r = Inr u'" by (cases r) auto
  with Cons.prems st have "train_batches E k finished fr' = (Inr u, fr2)" by simp
  from Cons.IH[OF this] st r show ?case by simp
qed

lemma train_epochs_append:
  "train_epochs E ts devset before fr0 = (Inr u, fr) \<Longrightarrow>
     train_epochs E ts devset (before @ ks) fr0 = train_epochs E ts devset ks fr"
proof (induction before arbitrary: fr0)
  case Nil
  then show ?case by simp
next
  case (Cons k before)
  obtain r fr' where st: "train_epoch E ts devset k fr0 = (r, fr')"
    by (cases "train_epoch E ts devset k fr0")
  with Cons.prems obtain u' where r: "r = Inr u'" by (cases r) auto
  with Cons.prems st have "train_epochs E ts devset before fr' = (Inr u, fr)" by simp
  from Cons.IH[OF this] st r show ?case by simp
qed

text \<open>
  C8. When pulling or processing a batch fails in some epoch, after the epochs before it
  and the batches before it have completed, \<open>train\<close> returns that error and runs nothing
  further. The parameters are those left by the completed batches; the file system is
  the one the epoch started with (no checkpoint, no log line, no figure for this epoch),
  and the two result lists have not grown.
\<close>

theorem train_aborts_in_batch_loop:
  assumes "train_setup E s w trainset = Inr (ts, n, fr0)"
    and "[1..n] = before @ epoch # later"
    and "train_epochs E ts devset before fr0 = (Inr u, fr)"
    and "epoch_batches E ts fr = (finished @ c # rest, fr1)"
    and "train_batches E epoch finished fr1 = (Inr u, fr2)"
    and "train_step E epoch c fr2 = (Inl e, fr3)"
  shows "train E s w trainset devset = (Inl e, self fr3, wld fr3)
       \<and> train_epochs E ts devset [1..n] fr0 = (Inl e, fr3)
       \<and> model (self fr3) = model (self fr2)
       \<and> fs (wld fr3) = fs (wld fr)
       \<and> total_loss fr3 = total_loss fr \<and> dev_accuracy fr3 = dev_accuracy fr"
proof -
  have tb: "train_batches E epoch (finished @ c # rest) fr1 = (Inl e, fr3)"
    using train_batches_append[OF assms(5), of "c # rest"] assms(6) by simp
  have te: "train_epoch E ts devset epoch fr = (Inl e, fr3)"
    by (simp add: train_epoch_def assms(4) tb)
  have lp: "train_epochs E ts devset [1..n] fr0 = (Inl e, fr3)"
    using train_epochs_append[OF assms(3), of "epoch # later"] te by (simp add: assms(2))
  have tr: "train E s w trainset devset = (Inl e, self fr3, wld fr3)"
    by (simp add: train_def train_frame_def assms(1) lp)
  note f1 = epoch_batches_fields[OF assms(4)]
  from train_batches_fields[OF assms(5)] have f2: "fs (wld fr2) = fs (wld fr1)"
    "total_loss fr2 = total_loss fr1" "dev_accuracy fr2 = dev_accuracy fr1" by simp_all
  note f3 = train_step_fields[OF assms(6)] train_step_failure[OF assms(6)]
  show ?thesis using tr lp f1 f2 f3 by simp
qed

theorem train_aborts_in_batch_loop_witness:
  "train demo_collab (self (demo_frame 2)) demo_world ''bad.csv'' ''test.csv''
     = (Inl DatasetError, (self (demo_frame 2))\<lparr>model := Some 1\<rparr>, demo_world\<lparr>rng := 1\<rparr>)"
proof -
  define fr1 where "fr1 = snd (epoch_batches demo_collab [''a'', ''b'', ''missing''] (demo_frame 2))"
  define fr2 where "fr2 = snd (train_batches demo_collab 1 [ [''a'', ''b''] ] fr1)"
  define fr3 where "fr3 = snd (train_step demo_collab 1 [''missing''] fr2)"
  have h1: "train_setup demo_collab (self (demo_frame 2)) demo_world ''bad.csv''
              = Inr ([''a'', ''b'', ''missing''], 2, demo_frame 2)"
    by (simp add: train_setup_def demo_frame_def demo_world_def demo_collab_def eval_defs)
  have h2: "[1..2] = [] @ 1 # [2::int]" by (simp add: upto.simps)
  have h3: "train_epochs demo_collab [''a'', ''b'', ''missing''] ''test.csv'' [] (demo_frame 2)
              = (Inr (), demo_frame 2)" by simp
  have h4: "epoch_batches demo_collab [''a'', ''b'', ''missing''] (demo_frame 2)
              = ([ [''a'', ''b''] ] @ [''missing''] # [], fr1)"
    unfolding fr1_def by (simp add: demo_frame_def demo_collab_def eval_defs)
  have h5: "train_batches demo_collab 1 [ [''a'', ''b''] ] fr1 = (Inr (), fr2)"
    unfolding fr2_def fr1_def by (simp add: demo_frame_def demo_collab_def eval_defs train_step_def)
  have h6: "train_step demo_collab 1 [''missing''] fr2 = (Inl DatasetError, fr3)"
    unfolding fr3_def fr2_def fr1_def
    by (simp add: demo_frame_def demo_collab_def eval_defs train_step_def)
  have v: "self fr3 = (self (demo_frame 2))\<lparr>model := Some 1\<rparr>" "wld fr3 = demo_world\<lparr>rng := 1\<rparr>"
    unfolding fr3_def fr2_def fr1_def
    by (simp_all add: demo_frame_def demo_collab_def demo_world_def eval_defs train_step_def)
  from train_aborts_in_batch_loop[OF h1 h2 h3 h4 h5 h6] v show ?thesis by simp
qed


text \<open>
  C3, as amended. In every epoch the counter starts at zero and advances by the
  configured batch size with each batch pulled (also for a short last batch). A
  progress line is printed after the \<open>j\<close>-th batch exactly when \<open>j\<close> times the batch size
  is a multiple of 100, and it shows that count; nothing else is printed during the
  batch loop. A step that prints a progress line leaves the accumulator at zero.
\<close>

theorem progress_lines_at_multiples_of_100:
  assumes "epoch_batches E trainset fr = (cs, fr1)"
    and "train_batches E epoch cs fr1 = (Inr u, fr2)"
  shows "(\<exists>evs. out (wld fr2) = out (wld fr) @ evs
            \<and> length (progress_counts evs) = length evs
            \<and> progress_counts evs
                = filter (\<lambda>b. b mod 100 = 0)
                    (map (\<lambda>j. int j * batch_size (self fr)) [1..<Suc (length cs)]))
       \<and> (\<forall>c fa fb. train_step E epoch c fa = (Inr u, fb) \<and> batch fb mod 100 = 0
              \<longrightarrow> running_loss fb = 0)"
proof -
  note f = epoch_batches_fields[OF assms(1)]
  from train_batches_reports[OF assms(2)] obtain evs where
    "out (wld fr2) = out (wld fr1) @ evs"
    "progress_counts evs = filter (\<lambda>b. b mod 100 = 0)
        (map (\<lambda>j. batch fr1 + int j * batch_size (self fr1)) [1..<Suc (length cs)])"
    "length evs = length (progress_counts evs)"
    by blast
  then have "out (wld fr2) = out (wld fr) @ evs \<and> length (progress_counts evs) = length evs
       \<and> progress_counts evs = filter (\<lambda>b. b mod 100 = 0)
           (map (\<lambda>j. int j * batch_size (self fr)) [1..<Suc (length cs)])"
    by (simp add: f del: upt_Suc)
  moreover have "\<forall>c fa fb. train_step E epoch c fa = (Inr u, fb) \<and> batch fb mod 100 = 0
              \<longrightarrow> running_loss fb = 0"
    by (auto dest: train_step_report(2))
  ultimately show ?thesis by blast
qed

theorem progress_lines_at_multiples_of_100_witness:
  "progress_counts
     (out (wld (snd (train_batches demo_collab 1
        (fst (epoch_batches demo_collab (replicate 101 ''u'') (demo_frame 50)))
        (snd (epoch_batches demo_collab (replicate 101 ''u'') (demo_frame 50))))))) = [100]"
proof -
  define cs where "cs = fst (epoch_batches demo_collab (replicate 101 ''u'') (demo_frame 50))"
  define fr1 where "fr1 = snd (epoch_batches demo_collab (replicate 101 ''u'') (demo_frame 50))"
  define fr2 where "fr2 = snd (train_batches demo_collab 1 cs fr1)"
  have h1: "epoch_batches demo_collab (replicate 101 ''u'') (demo_frame 50) = (cs, fr1)"
    by (simp add: cs_def fr1_def)
  have csv: "cs = [replicate 50 ''u'', replicate 50 ''u'', [''u'']]"
    unfolding cs_def by (simp add: demo_frame_def demo_collab_def eval_defs)
  have "fst (train_batches demo_collab 1 cs fr1) = Inr ()"
    unfolding csv fr1_def
    by (simp add: demo_frame_def demo_collab_def demo_world_def eval_defs)
  then have h2: "train_batches demo_collab 1 cs fr1 = (Inr (), fr2)"
    by (simp add: fr2_def prod_eq_iff)
  have o: "out (wld (demo_frame 50)) = []" "batch_size (self (demo_frame 50)) = 50"
    by (simp_all add: demo_frame_def demo_world_def)
  from progress_lines_at_multiples_of_100[OF h1 h2] obtain evs where
    "out (wld fr2) = evs" "progress_counts evs = [100]"
    by (auto simp: o csv)
  then show ?thesis by (simp add: fr2_def cs_def fr1_def)
qed

text \<open>
  C3 as the claim states it fails on both counts. With batch size 50 and 100 examples of
  squared error 1 each (two batches of loss 1), the line printed at 100 shows 1/50, not
  the mean loss 1. With batch size 3 and 102 examples no line is printed at all.
\<close>

theorem progress_line_not_interval_mean:
  "fst (train_batches demo_collab 1 (chunks 50 (replicate 100 ''u'')) (demo_frame 50)) = Inr ()
   \<and> out (wld (snd (train_batches demo_collab 1 (chunks 50 (replicate 100 ''u'')) (demo_frame 50))))
       = [TrainProgress 1 100 (1 / 50) 0]
   \<and> getitem demo_collab ''u'' = Some (1, 0, 0) \<and> forward demo_collab 0 1 = 1
   \<and> mse_loss (replicate 50 0) (replicate 50 1) = 1
   \<and> fst (train_batches demo_collab 1 (chunks 3 (replicate 102 ''u'')) (demo_frame 3)) = Inr ()
   \<and> out (wld (snd (train_batches demo_collab 1 (chunks 3 (replicate 102 ''u'')) (demo_frame 3)))) = []"
  by (simp add: demo_frame_def demo_collab_def demo_world_def eval_defs)


text \<open>
  C4, as amended. A batch that leaves the counter off a multiple of 100 prints nothing,
  so a partial accumulation at the end of an epoch is not reported; and it is not
  carried over either: an epoch gives the same result and the same frame whatever the
  accumulator and the counter held when it started, because it resets both first.
\<close>

theorem epoch_discards_partial_loss:
  assumes "train_step E epoch c fa = (Inr u, fb)" and "batch fb mod 100 \<noteq> 0"
  shows "out (wld fb) = out (wld fa)
       \<and> (\<forall>fr k r b. train_epoch E trainset devset k (fr\<lparr>batch := b, running_loss := r\<rparr>)
                       = train_epoch E trainset devset k fr)"
proof -
  have "epoch_batches E trainset (fr\<lparr>batch := b, running_loss := r\<rparr>) = epoch_batches E trainset fr"
    for fr :: "('a, 'b) frame" and b r
    by (simp add: epoch_batches_def)
  then have "\<forall>fr k r b. train_epoch E trainset devset k (fr\<lparr>batch := b, running_loss := r\<rparr>)
                       = train_epoch E trainset devset k fr"
    by (simp add: train_epoch_def)
  with train_step_report(3)[OF assms] show ?thesis by blast
qed

theorem epoch_discards_partial_loss_witness:
  "fst (train_step demo_collab 1 (replicate 50 ''u'') (demo_frame 50)) = Inr ()
   \<and> batch (snd (train_step demo_collab 1 (replicate 50 ''u'') (demo_frame 50))) = 50
   \<and> running_loss (snd (train_step demo_collab 1 (replicate 50 ''u'') (demo_frame 50))) = 1
   \<and> out (wld (snd (train_step demo_collab 1 (replicate 50 ''u'') (demo_frame 50)))) = []
   \<and> train_epoch demo_collab [''a''] ''test.csv'' 2
        ((demo_frame 50)\<lparr>batch := 150, running_loss := 1\<rparr>)
       = train_epoch demo_collab [''a''] ''test.csv'' 2 (demo_frame 50)"
proof -
  define fb where "fb = snd (train_step demo_collab 1 (replicate 50 ''u'') (demo_frame 50))"
  have v: "fst (train_step demo_collab 1 (replicate 50 ''u'') (demo_frame 50)) = Inr ()"
    "batch fb = 50" "running_loss fb = 1"
    unfolding fb_def by (simp_all add: demo_frame_def demo_collab_def demo_world_def eval_defs)
  then have h1: "train_step demo_collab 1 (replicate 50 ''u'') (demo_frame 50) = (Inr (), fb)"
    by (simp add: fb_def prod_eq_iff)
  have h2: "batch fb mod 100 \<noteq> 0" by (simp add: v)
  have o: "out (wld (demo_frame 50)) = []" by (simp add: demo_frame_def demo_world_def)
  from epoch_discards_partial_loss[OF h1 h2, of "[''a'']" "''test.csv''"] v o
  show ?thesis unfolding fb_def by simp
qed

text \<open>
  C4 as the claim states it: with batch size 50 and 101 examples of squared error 1, the
  first epoch ends with the accumulator at 1 (its third batch), and the first progress
  line of the second epoch shows 2/100, the sum of its own two batches over 100; were
  the leftover included it would show 3/100.
\<close>

theorem partial_loss_not_carried_over:
  "running_loss (snd (train_epoch demo_collab (replicate 101 ''u'') ''test.csv'' 1 (demo_frame 50))) = 1
   \<and> fst (train_epochs demo_collab (replicate 101 ''u'') ''test.csv'' [1, 2] (demo_frame 50)) = Inr ()
   \<and> out (wld (snd (train_epochs demo_collab (replicate 101 ''u'') ''test.csv'' [1, 2] (demo_frame 50))))
       = [TrainProgress 1 100 (1 / 50) 0, Line ''Saving servo Model '',
          TrainProgress 2 100 (1 / 50) 100, Line ''Saving servo Model '']"
  by (simp add: demo_frame_def demo_collab_def demo_world_def eval_defs)

text \<open>
  C5 on a motor session. The session built for the signal \<open>motor\<close> trains for two epochs
  and saves its checkpoints as \<open>servo_model_epoch_1.pth\<close> and \<open>servo_model_epoch_2.pth\<close>;
  no file named after the motor signal exists afterwards.
\<close>

theorem motor_checkpoint_named_servo:
  "\<exists>s w s' w'. NNTools_init demo_collab demo_settings [''motor'', ''train''] demo_world = (Inr s, w)
      \<and> stype s = ''motor''
      \<and> train demo_collab s w ''train.csv'' ''test.csv'' = (Inr (), s', w')
      \<and> fs w' ''output/models/servo_model_epoch_1.pth'' = Some (Weights 3)
      \<and> fs w' ''output/models/servo_model_epoch_2.pth'' = Some (Weights 5)
      \<and> fs w' ''output/models/motor_model_epoch_1.pth'' = None
      \<and> fs w' ''output/models/motor_model_epoch_2.pth'' = None"
proof -
  define r where "r = NNTools_init demo_collab demo_settings [''motor'', ''train''] demo_world"
  define s where "s = projr (fst r)"
  define w where "w = snd r"
  define t where "t = train demo_collab s w ''train.csv'' ''test.csv''"
  have i: "NNTools_init demo_collab demo_settings [''motor'', ''train''] demo_world = (Inr s, w)"
    "stype s = ''motor''"
    unfolding s_def w_def r_def
    by (simp_all add: NNTools_init_def read_settings_def py_index_def demo_settings_def build_model_def
          demo_collab_def set_output_def mkdir_missing_def path_join_def ODIR_def demo_world_def Let_def)
  have "fst t = Inr ()"
    "fs (snd (snd t)) ''output/models/servo_model_epoch_1.pth'' = Some (Weights 3)"
    "fs (snd (snd t)) ''output/models/servo_model_epoch_2.pth'' = Some (Weights 5)"
    "fs (snd (snd t)) ''output/models/motor_model_epoch_1.pth'' = None"
    "fs (snd (snd t)) ''output/models/motor_model_epoch_2.pth'' = None"
    unfolding t_def s_def w_def r_def
    by (simp_all add: NNTools_init_def read_settings_def build_model_def SEED_def
          demo_settings_def set_output_def mkdir_missing_def
          eval_defs train_defs demo_collab_def demo_world_def upto.simps
          show_int_def show_nat.simps digit_char_def)
  moreover have "t = (fst t, fst (snd t), snd (snd t))" by simp
  ultimately show ?thesis using i unfolding t_def by metis
qed


section \<open>The constructor\<close>

lemma build_model_deterministic:
  "fst (build_model E ty sh wa) = fst (build_model E ty sh wb)"
  by (simp add: build_model_def Let_def split: prod.splits)

lemma build_model_fs: "fs (snd (build_model E ty sh w)) = fs w"
  by (simp add: build_model_def Let_def split: prod.splits)

lemma set_output_path: "set_output w = (Inr lg, w') \<Longrightarrow> lg = log_path"
  by (auto simp: set_output_def Let_def log_path_def split: if_splits)

lemma load_model_ok:
  "load_model s w mf = Inr s' \<Longrightarrow> \<exists>m. fs w mf = Some (Weights m) \<and> s' = s\<lparr>model := Some m\<rparr>"
  by (auto simp: load_model_def split: option.splits entry.splits)

lemma NNTools_init_ok:
  assumes "NNTools_init E settings types w = (Inr s, w')"
  shows "\<exists>t0 t1 c. read_settings settings types = Inr (t0, t1, c)
     \<and> stype s = t0 \<and> shape s = c_shape c \<and> batch_size s = c_batch c \<and> cuda s = c_cuda c
     \<and> epochs s = (if t1 = ''train'' then c_epoch c else None)
     \<and> model_file s = (if t1 \<noteq> ''train'' \<and> t1 = ''test'' then c_model c else None)
     \<and> on_gpu s = False
     \<and> (if t1 = ''train'' then model s = fst (build_model E t0 (c_shape c) w) \<and> logf s = Some log_path
         else logf s = None \<and> (\<exists>mf m. model_file s = Some mf \<and> fs w mf = Some (Weights m) \<and> model s = Some m))"
proof -
  from assms obtain t0 t1 c where rs: "read_settings settings types = Inr (t0, t1, c)"
    by (cases "read_settings settings types") (auto simp: NNTools_init_def)
  obtain mo w1 where bm: "build_model E t0 (c_shape c) w = (mo, w1)"
    by (cases "build_model E t0 (c_shape c) w")
  have mo: "mo = fst (build_model E t0 (c_shape c) w)" and w1: "fs w1 = fs w"
    using bm build_model_fs[of E t0 "c_shape c" w] by simp_all
  let ?s0 = "\<lparr>stype = t0, shape = c_shape c, batch_size = c_batch c, cuda = c_cuda c,
              epochs = (if t1 = ''train'' then c_epoch c else None),
              model_file = (if t1 \<noteq> ''train'' \<and> t1 = ''test'' then c_model c else None),
              model = mo, on_gpu = False, logf = None\<rparr>"
  show ?thesis
  proof (cases "t1 = ''train''")
    case True
    with assms rs bm obtain lg where "set_output w1 = (Inr lg, w')" "s = ?s0\<lparr>logf := Some lg\<rparr>"
      by (auto simp: NNTools_init_def Let_def split: if_splits prod.splits sum.splits)
    with set_output_path[of w1 lg w'] have "s = ?s0\<lparr>logf := Some log_path\<rparr>" by simp
    with rs True mo show ?thesis by simp
  next
    case False
    with assms rs bm obtain mf where mf: "model_file ?s0 = Some mf" "load_model ?s0 w1 mf = Inr s"
      by (auto simp: NNTools_init_def Let_def split: if_splits option.splits sum.splits)
    from load_model_ok[OF mf(2)] obtain m where "fs w1 mf = Some (Weights m)" "s = ?s0\<lparr>model := Some m\<rparr>"
      by blast
    with rs False mf(1) w1 show ?thesis by auto
  qed
qed

text \<open>
  C10. The constructor seeds the generator with \<open>SEED\<close> before it builds the network, so
  the parameters it builds do not depend on the process state it is called in. Two
  constructor calls with the same settings and types that both succeed give the same
  object, in particular the same model parameters, whatever the two generators held
  before (for a test session, which loads its parameters from the checkpoint named in the
  settings, provided that file is the same in both runs).
\<close>

theorem init_deterministic:
  assumes "NNTools_init E settings types w1 = (Inr s1, w1')"
    and "NNTools_init E settings types w2 = (Inr s2, w2')"
    and "\<forall>mf. model_file s1 = Some mf \<longrightarrow> fs w1 mf = fs w2 mf"
  shows "model s1 = model s2 \<and> s1 = s2
       \<and> (\<forall>ty sh. fst (build_model E ty sh w1) = fst (build_model E ty sh w2))"
proof -
  from NNTools_init_ok[OF assms(1)] obtain t0 t1 c where
    rs: "read_settings settings types = Inr (t0, t1, c)"
    and a: "stype s1 = t0" "shape s1 = c_shape c" "batch_size s1 = c_batch c" "cuda s1 = c_cuda c"
      "epochs s1 = (if t1 = ''train'' then c_epoch c else None)"
      "model_file s1 = (if t1 \<noteq> ''train'' \<and> t1 = ''test'' then c_model c else None)"
      "on_gpu s1 = False"
    and a': "if t1 = ''train'' then model s1 = fst (build_model E t0 (c_shape c) w1) \<and> logf s1 = Some log_path
         else logf s1 = None \<and> (\<exists>mf m. model_file s1 = Some mf \<and> fs w1 mf = Some (Weights m) \<and> model s1 = Some m)"
    by blast
  from NNTools_init_ok[OF assms(2)] obtain t0' t1' c' where
    rs': "read_settings settings types = Inr (t0', t1', c')"
    and b0: "stype s2 = t0'" "shape s2 = c_shape c'" "batch_size s2 = c_batch c'" "cuda s2 = c_cuda c'"
      "epochs s2 = (if t1' = ''train'' then c_epoch c' else None)"
      "model_file s2 = (if t1' \<noteq> ''train'' \<and> t1' = ''test'' then c_model c' else None)"
      "on_gpu s2 = False"
    and b0': "if t1' = ''train'' then model s2 = fst (build_model E t0' (c_shape c') w2) \<and> logf s2 = Some log_path
         else logf s2 = None \<and> (\<exists>mf m. model_file s2 = Some mf \<and> fs w2 mf = Some (Weights m) \<and> model s2 = Some m)"
    by blast
  from rs rs' have eq: "t0' = t0" "t1' = t1" "c' = c" by simp_all
  note b = b0[unfolded eq] and b' = b0'[unfolded eq]
  have d: "fst (build_model E ty sh w1) = fst (build_model E ty sh w2)" for ty sh
    by (rule build_model_deterministic)
  have ml: "model s1 = model s2 \<and> logf s1 = logf s2"
  proof (cases "t1 = ''train''")
    case True
    with a' b' d show ?thesis by simp
  next
    case False
    with a' obtain mf m where x: "model_file s1 = Some mf" "fs w1 mf = Some (Weights m)"
      "model s1 = Some m" "logf s1 = None" by auto
    from False b' obtain mf' m' where y: "model_file s2 = Some mf'" "fs w2 mf' = Some (Weights m')"
      "model s2 = Some m'" "logf s2 = None" by auto
    from x(1) y(1) a(6) b(6) have "mf' = mf" by simp
    with assms(3) x(1,2) y(2) have "m' = m" by simp
    with x y show ?thesis by simp
  qed
  have "s1 = s2"
    by (rule nntools.equality) (simp_all add: a b ml)
  with d show ?thesis by simp
qed

theorem init_deterministic_witness:
  "fst (NNTools_init demo_collab demo_settings [''servo'', ''train''] demo_world)
     = fst (NNTools_init demo_collab demo_settings [''servo'', ''train''] (demo_world\<lparr>rng := 5\<rparr>))
   \<and> model (projr (fst (NNTools_init demo_collab demo_settings [''servo'', ''train''] demo_world)))
     = Some 0"
proof -
  define r1 where "r1 = NNTools_init demo_collab demo_settings [''servo'', ''train''] demo_world"
  define r2 where "r2 = NNTools_init demo_collab demo_settings [''servo'', ''train''] (demo_world\<lparr>rng := 5\<rparr>)"
  have v: "r1 = (Inr (projr (fst r1)), snd r1)" "r2 = (Inr (projr (fst r2)), snd r2)"
    "model_file (projr (fst r1)) = None" "model (projr (fst r1)) = Some 0"
    unfolding r1_def r2_def
    by (simp_all add: NNTools_init_def read_settings_def py_index_def demo_settings_def build_model_def
          demo_collab_def set_output_def mkdir_missing_def path_join_def ODIR_def demo_world_def Let_def
          SEED_def)
  have h3: "\<forall>mf. model_file (projr (fst r1)) = Some mf \<longrightarrow> fs demo_world mf = fs (demo_world\<lparr>rng := 5\<rparr>) mf"
    by (simp add: v(3))
  from init_deterministic[OF v(1)[unfolded r1_def] v(2)[unfolded r2_def] h3[unfolded r1_def]]
  have "projr (fst r1) = projr (fst r2)" by (simp add: r1_def r2_def)
  moreover have "fst r1 = Inr (projr (fst r1))" "fst r2 = Inr (projr (fst r2))"
    using v(1,2) by (metis fst_conv)+
  ultimately show ?thesis using v(4) by (simp add: r1_def r2_def)
qed


end
